theory Spec2Isabelle
  imports Complex_Main
begin

section \<open>Numbers\<close>

text \<open>
  A JavaScript number is \<open>NaN\<close>, an infinity, or a finite value. Finite arithmetic is
  exact here: the rounding of a double after each operation, overflow to an infinity and
  the sign of zero are not modelled. Operations on \<open>NaN\<close> and on the infinities follow
  the language: every comparison with \<open>NaN\<close> is false, \<open>NaN\<close> and \<open>0\<close> are falsy.
\<close>

datatype jsnum = NaN | NegInf | Fin real | PosInf

fun jsNeg :: "jsnum \<Rightarrow> jsnum" where
  "jsNeg NaN = NaN"
| "jsNeg NegInf = PosInf"
| "jsNeg (Fin x) = Fin (- x)"
| "jsNeg PosInf = NegInf"

fun jsAdd :: "jsnum \<Rightarrow> jsnum \<Rightarrow> jsnum" where
  "jsAdd (Fin x) (Fin y) = Fin (x + y)"
| "jsAdd NaN b = NaN"
| "jsAdd a NaN = NaN"
| "jsAdd PosInf NegInf = NaN"
| "jsAdd NegInf PosInf = NaN"
| "jsAdd PosInf b = PosInf"
| "jsAdd a PosInf = PosInf"
| "jsAdd NegInf b = NegInf"
| "jsAdd a NegInf = NegInf"

definition jsSub :: "jsnum \<Rightarrow> jsnum \<Rightarrow> jsnum" where
  "jsSub a b = jsAdd a (jsNeg b)"

fun jsSign :: "jsnum \<Rightarrow> int" where
  "jsSign NaN = 0"
| "jsSign NegInf = - 1"
| "jsSign (Fin x) = (if x < 0 then - 1 else if x = 0 then 0 else 1)"
| "jsSign PosInf = 1"

fun jsMul :: "jsnum \<Rightarrow> jsnum \<Rightarrow> jsnum" where
  "jsMul (Fin x) (Fin y) = Fin (x * y)"
| "jsMul NaN b = NaN"
| "jsMul a NaN = NaN"
| "jsMul a b =
     (if jsSign a * jsSign b = 0 then NaN
      else if jsSign a * jsSign b > 0 then PosInf else NegInf)"

fun jsDiv :: "jsnum \<Rightarrow> jsnum \<Rightarrow> jsnum" where
  "jsDiv NaN b = NaN"
| "jsDiv a NaN = NaN"
| "jsDiv (Fin x) (Fin y) =
     (if y = 0 then (if x = 0 then NaN else if x > 0 then PosInf else NegInf)
      else Fin (x / y))"
| "jsDiv (Fin x) b = Fin 0"
| "jsDiv a (Fin y) = (if jsSign a * (if y < 0 then - 1 else 1) > 0 then PosInf else NegInf)"
| "jsDiv a b = NaN"

fun jsAbs :: "jsnum \<Rightarrow> jsnum" where
  "jsAbs NaN = NaN"
| "jsAbs NegInf = PosInf"
| "jsAbs (Fin x) = Fin \<bar>x\<bar>"
| "jsAbs PosInf = PosInf"

fun jsLess :: "jsnum \<Rightarrow> jsnum \<Rightarrow> bool" where
  "jsLess NaN b = False"
| "jsLess a NaN = False"
| "jsLess (Fin x) (Fin y) = (x < y)"
| "jsLess NegInf b = (b \<noteq> NegInf)"
| "jsLess a PosInf = (a \<noteq> PosInf)"
| "jsLess a b = False"

definition jsGreater :: "jsnum \<Rightarrow> jsnum \<Rightarrow> bool" where
  "jsGreater a b = jsLess b a"

definition jsGe :: "jsnum \<Rightarrow> jsnum \<Rightarrow> bool" where
  "jsGe a b = (a \<noteq> NaN \<and> b \<noteq> NaN \<and> \<not> jsLess a b)"

definition jsLe :: "jsnum \<Rightarrow> jsnum \<Rightarrow> bool" where
  "jsLe a b = jsGe b a"

text \<open>\<open>Math.max\<close> of two numbers.\<close>

definition jsMax :: "jsnum \<Rightarrow> jsnum \<Rightarrow> jsnum" where
  "jsMax a b = (if a = NaN \<or> b = NaN then NaN else if jsLess a b then b else a)"

definition jsTruthy :: "jsnum \<Rightarrow> bool" where
  "jsTruthy n = (n \<noteq> NaN \<and> n \<noteq> Fin 0)"

text \<open>
  A numeric property of an object is optional. A missing one reads as \<open>undefined\<close>,
  which arithmetic and comparison turn into \<open>NaN\<close> (\<open>toNum\<close>) and which is falsy
  (\<open>truthyNum\<close>); \<open>orZero\<close> is the idiom \<open>x || 0\<close>.
\<close>

definition toNum :: "jsnum option \<Rightarrow> jsnum" where
  "toNum x = (case x of None \<Rightarrow> NaN | Some n \<Rightarrow> n)"

definition truthyNum :: "jsnum option \<Rightarrow> bool" where
  "truthyNum x = (case x of None \<Rightarrow> False | Some n \<Rightarrow> jsTruthy n)"

definition orZero :: "jsnum option \<Rightarrow> jsnum" where
  "orZero x = (if truthyNum x then toNum x else Fin 0)"

section \<open>Data model\<close>

text \<open>
  The engine works on plain JavaScript objects typed \<open>any\<close>. A declaration object is
  a record of the properties that the agents, the orchestrator and the rule-pack
  simulation read. A property that may be missing is an \<open>option\<close>, \<open>None\<close> being the
  missing property; the two boolean flags are read for their truthiness only, so a
  missing flag is \<open>False\<close>. A date is the time value of \<open>new Date(...)\<close>, \<open>None\<close> for
  an invalid or missing one. \<open>declId\<close> is the value of
  \<open>declaration.id || declaration.declarationId\<close>, \<open>val\<close> is the property \<open>value\<close>,
  \<open>declRiskScore\<close> the property \<open>riskScore\<close> of the declaration. An entry of a list of
  declarations that is \<open>null\<close> or \<open>undefined\<close> instead of an object is written
  \<open>None\<close> where such lists are handled.
\<close>

record taxes =
  vat :: "jsnum option"
  getFund :: "jsnum option"
  nhil :: "jsnum option"
  covid :: "jsnum option"
  importDuty :: "jsnum option"
  excise :: "jsnum option"

record atgReadings =
  finalVolume :: "jsnum option"

record paymentConfirmation =
  amount :: "jsnum option"
  verified :: bool

record Declaration =
  declId :: "string option"
  shipmentId :: "string option"
  hsCode :: "string option"
  originCountry :: "string option"
  destinationCountry :: "string option"
  transitCountries :: "string list option"
  val :: "jsnum option"
  weight :: "jsnum option"
  volume :: "jsnum option"
  ecowasOrigin :: bool
  documents :: "string list option"
  atgApplicable :: bool
  atgCertificate :: "string option"
  atgReadings :: "atgReadings option"
  qualityCertificate :: "string option"
  taxes :: "taxes option"
  declarantTin :: "string option"
  exemptions :: "string list option"
  paymentStatus :: "string option"
  tsaReference :: "string option"
  paymentConfirmation :: "paymentConfirmation option"
  currency :: "string option"
  exchangeRate :: "jsnum option"
  paymentMethod :: "string option"
  date :: "int option"
  sector :: "string option"
  declRiskScore :: "jsnum option"

datatype severity = Low | Medium | High | Critical

text \<open>
  A finding keeps its type tag and its severity. The description, the evidence lines and
  the recommendation are display text built by string interpolation; no branch of the
  engine reads them and they are left out of the model.
\<close>

record finding =
  ftype :: string
  severity :: severity

text \<open>
  The metadata object of an agent result, one optional field per key that some agent
  writes or that the orchestrator reads (\<open>recoveryAmount\<close> and \<open>md_sector\<close>, the key
  \<open>sector\<close>, are read by the orchestrator and written by no agent).
\<close>

record metadata =
  recoveryAmount :: "jsnum option"
  estimatedShortfall :: "jsnum option"
  md_sector :: "string option"
  md_note :: "string option"
  ecowasCompliance :: "bool option"
  verifiedOrigin :: "string option"
  riskFactors :: "string list option"
  petroleumType :: "string option"
  atgCompliant :: "bool option"
  taxCompliant :: "bool option"
  totalTaxLiability :: "jsnum option"
  taxGap :: "jsnum option"
  complianceScore :: "real option"
  tsaStatus :: "string option"
  reconciledAmount :: "jsnum option"
  md_paymentMethod :: "string option"

definition noMetadata :: metadata where
  "noMetadata = \<lparr>recoveryAmount = None, estimatedShortfall = None, md_sector = None,
     md_note = None, ecowasCompliance = None, verifiedOrigin = None, riskFactors = None,
     petroleumType = None, atgCompliant = None, taxCompliant = None,
     totalTaxLiability = None, taxGap = None, complianceScore = None, tsaStatus = None,
     reconciledAmount = None, md_paymentMethod = None\<rparr>"

text \<open>
  \<open>AgentResultSchema\<close>. The field \<open>processingTime\<close> is a wall-clock measurement
  (\<open>Date.now() - startTime\<close>) read only by the performance metrics; it is not modelled.
  The risk score and the confidence of a result are sums of small whole numbers and
  fixed constants, kept as reals.
\<close>

record AgentResult =
  agentId :: string
  agentType :: string
  declarationId :: "string option"
  hasViolation :: bool
  confidence :: real
  riskScore :: real
  findings :: "finding list"
  metadata :: metadata

text \<open>An exception raised by the engine; every one in the modelled code is a
  \<open>TypeError\<close> from reading a property of \<open>undefined\<close> or \<open>null\<close>.\<close>

datatype error = TypeError

section \<open>Strings and truthiness\<close>

definition startsWith :: "string \<Rightarrow> string \<Rightarrow> bool" where
  "startsWith s p = (take (length p) s = p)"

fun strIncludes :: "string \<Rightarrow> string \<Rightarrow> bool" where
  "strIncludes [] sub = (sub = [])"
| "strIncludes (c # cs) sub = (startsWith (c # cs) sub \<or> strIncludes cs sub)"

text \<open>Truthiness of an optional string (\<open>undefined\<close> and \<open>''\<close> are falsy), and
  \<open>list.includes(x)\<close> for an optional string \<open>x\<close> and a list of strings.\<close>

definition truthyStr :: "string option \<Rightarrow> bool" where
  "truthyStr s = (case s of None \<Rightarrow> False | Some x \<Rightarrow> x \<noteq> [])"

definition listIncludes :: "string list \<Rightarrow> string option \<Rightarrow> bool" where
  "listIncludes xs s = (case s of None \<Rightarrow> False | Some x \<Rightarrow> x \<in> set xs)"

section \<open>The agents\<close>

definition generateResult ::
  "string \<Rightarrow> string \<Rightarrow> string option \<Rightarrow> bool \<Rightarrow> real \<Rightarrow> real \<Rightarrow> finding list \<Rightarrow> metadata
   \<Rightarrow> AgentResult" where
  "generateResult aid atype did hv conf rs fs md =
     \<lparr>agentId = aid, agentType = atype, declarationId = did, hasViolation = hv,
      confidence = conf, riskScore = rs, findings = fs, metadata = md\<rparr>"

subsection \<open>ECOWAS Origin Verification Agent\<close>

definition ecowasCountries :: "string list" where
  "ecowasCountries = [''NG'', ''BJ'', ''CI'', ''BF'', ''ML'', ''NE'', ''SN'', ''SL'', ''TG'']"

definition isHighRiskHSCode :: "string \<Rightarrow> bool" where
  "isHighRiskHSCode h =
     list_ex (\<lambda>pattern. startsWith h pattern) [''5201'', ''5203'', ''6203'', ''6204'', ''6403'']"

text \<open>\<open>checkSuspiciousPatterns\<close> returns a description object or \<open>null\<close>; only whether it is
  \<open>null\<close> is read, so the model returns a boolean.\<close>

definition checkSuspiciousPatterns :: "Declaration \<Rightarrow> bool" where
  "checkSuspiciousPatterns d =
     (if destinationCountry d = Some ''GH'' \<and> originCountry d = Some ''CN'' \<and> ecowasOrigin d
      then True
      else if (case transitCountries d of None \<Rightarrow> False | Some ts \<Rightarrow> ''AE'' \<in> set ts)
              \<and> ecowasOrigin d then True
      else False)"

definition marketValueMultipliers :: "(string \<times> real) list" where
  "marketValueMultipliers =
     [(''5201'', 1.3), (''5203'', 1.4), (''6203'', 1.5), (''6204'', 1.5), (''6403'', 1.6)]"

fun underValuedLoop :: "string \<Rightarrow> jsnum \<Rightarrow> (string \<times> real) list \<Rightarrow> bool" where
  "underValuedLoop h v [] = False"
| "underValuedLoop h v ((pattern, multiplier) # rest) =
     (if startsWith h pattern
      then (let marketValue = jsMul v (Fin multiplier)
            in jsLess v (jsMul marketValue (Fin 0.8)))
      else underValuedLoop h v rest)"

text \<open>\<open>isUnderValued\<close> calls \<open>declaration.hsCode.startsWith\<close> with no presence test:
  a declaration without an HS code raises.\<close>

definition isUnderValued :: "Declaration \<Rightarrow> error + bool" where
  "isUnderValued d =
     (case hsCode d of
        None \<Rightarrow> Inl TypeError
      | Some h \<Rightarrow> Inr (underValuedLoop h (toNum (val d)) marketValueMultipliers))"

definition verifyDocuments :: "Declaration \<Rightarrow> finding list" where
  "verifyDocuments d =
     (if (case documents d of None \<Rightarrow> True | Some ds \<Rightarrow> ''certificate-of-origin'' \<notin> set ds)
      then [\<lparr>ftype = ''missing-document'', severity = High\<rparr>]
      else [])"

text \<open>
  The running state of \<open>analyze\<close> (\<open>hasViolation\<close>, \<open>riskScore\<close>, \<open>confidence\<close>,
  \<open>findings\<close>) is threaded through the three checks of the ECOWAS block as a tuple.
\<close>

type_synonym analysis = "bool \<times> real \<times> real \<times> finding list"

definition originCheck :: "Declaration \<Rightarrow> analysis \<Rightarrow> analysis" where
  "originCheck d st =
     (case st of (hv, rs, conf, fs) \<Rightarrow>
        if \<not> listIncludes ecowasCountries (originCountry d)
        then (True, rs + 40, 0.95, fs @ [\<lparr>ftype = ''origin-fraud'', severity = Critical\<rparr>])
        else st)"

definition patternCheck :: "Declaration \<Rightarrow> analysis \<Rightarrow> analysis" where
  "patternCheck d st =
     (case st of (hv, rs, conf, fs) \<Rightarrow>
        if (case hsCode d of None \<Rightarrow> False | Some h \<Rightarrow> h \<noteq> [] \<and> isHighRiskHSCode h)
           \<and> checkSuspiciousPatterns d
        then (True, rs + 25, conf, fs @ [\<lparr>ftype = ''suspicious-pattern'', severity = High\<rparr>])
        else st)"

definition valueCheck :: "Declaration \<Rightarrow> analysis \<Rightarrow> error + analysis" where
  "valueCheck d st =
     (case st of (hv, rs, conf, fs) \<Rightarrow>
        if truthyNum (val d)
        then (case isUnderValued d of
                Inl e \<Rightarrow> Inl e
              | Inr u \<Rightarrow>
                  if u then Inr (True, rs + 20, conf,
                                 fs @ [\<lparr>ftype = ''under-valuation'', severity = Medium\<rparr>])
                  else Inr st)
        else Inr st)"

definition ecowasFinish :: "Declaration \<Rightarrow> analysis \<Rightarrow> AgentResult" where
  "ecowasFinish d st =
     (case st of (hv, rs, conf, fs) \<Rightarrow>
        let documentIssues = verifyDocuments d;
            fs' = (if length documentIssues > 0 then fs @ documentIssues else fs);
            rs' = (if length documentIssues > 0
                   then rs + real (length documentIssues) * 10 else rs)
        in generateResult ''ecowas-origin-001'' ''ecowas-origin'' (declId d) hv conf
             (min 100 rs') fs'
             (noMetadata\<lparr>ecowasCompliance := Some (\<not> hv),
                          verifiedOrigin := originCountry d,
                          riskFactors := Some (map ftype fs')\<rparr>))"

definition ecowasAnalyze :: "Declaration \<Rightarrow> error + AgentResult" where
  "ecowasAnalyze d =
     (let st0 = (False, 0, 0.85, []) in
      if ecowasOrigin d
      then (case valueCheck d (patternCheck d (originCheck d st0)) of
              Inl e \<Rightarrow> Inl e
            | Inr st \<Rightarrow> Inr (ecowasFinish d st))
      else Inr (ecowasFinish d st0))"

subsection \<open>Petroleum ATG Analyzer\<close>

definition petroleumHSCodes :: "string list" where
  "petroleumHSCodes = [''2709'', ''2710'', ''2711'', ''2713'']"

definition isPetroleum :: "string \<Rightarrow> bool" where
  "isPetroleum h = list_ex (\<lambda>code. startsWith h code) petroleumHSCodes"

definition checkATGCompliance :: "Declaration \<Rightarrow> finding list" where
  "checkATGCompliance d =
     (if \<not> truthyStr (atgCertificate d)
      then [\<lparr>ftype = ''missing-atg-certificate'', severity = Critical\<rparr>] else [])
     @ (case atgReadings d of
          None \<Rightarrow> []
        | Some readings \<Rightarrow>
            (let expectedVolume = toNum (volume d);
                 actualVolume = toNum (finalVolume readings)
             in if jsLess actualVolume (jsMul expectedVolume (Fin 0.95))
                then [\<lparr>ftype = ''atg-shortfall'', severity = Critical\<rparr>] else []))"

definition analyzeVolumeWeight :: "Declaration \<Rightarrow> finding list" where
  "analyzeVolumeWeight d =
     (let expectedWeight = jsMul (toNum (volume d)) (Fin 0.85);
          weightTolerance = jsMul expectedWeight (Fin 0.1)
      in if jsGreater (jsAbs (jsSub (toNum (weight d)) expectedWeight)) weightTolerance
         then [\<lparr>ftype = ''volume-weight-discrepancy'', severity = High\<rparr>] else [])"

fun firstPrefix :: "string \<Rightarrow> (string \<times> 'a) list \<Rightarrow> 'a option" where
  "firstPrefix h [] = None"
| "firstPrefix h ((code, x) # rest) = (if startsWith h code then Some x else firstPrefix h rest)"

text \<open>The two functions below read \<open>declaration.hsCode\<close>; \<open>analyze\<close> calls them after
  its own read of the HS code has succeeded, and the model passes that string.\<close>

definition calculateExciseDuty :: "string \<Rightarrow> Declaration \<Rightarrow> jsnum" where
  "calculateExciseDuty h d =
     (case firstPrefix h [(''270900'', 0.20), (''271019'', 0.15), (''271112'', 0.10),
                          (''271119'', 0.10)] of
        Some rate \<Rightarrow> jsMul (toNum (val d)) (Fin rate)
      | None \<Rightarrow> Fin 0)"

definition identifyPetroleumType :: "string \<Rightarrow> string" where
  "identifyPetroleumType h =
     (case firstPrefix h [(''270900'', ''Crude Petroleum Oil''), (''271019'', ''Other Oils''),
                          (''271112'', ''Propane''), (''271119'', ''Other LPG''),
                          (''271320'', ''Petroleum Bitumen'')] of
        Some t \<Rightarrow> t
      | None \<Rightarrow> ''Unknown Petroleum Product'')"

definition checkPetroleumTaxes :: "string \<Rightarrow> Declaration \<Rightarrow> finding list" where
  "checkPetroleumTaxes h d =
     (let v = toNum (val d);
          expectedTaxes = [(vat, jsMul v (Fin 0.15)), (getFund, jsMul v (Fin 0.025)),
                           (nhil, jsMul v (Fin 0.025)), (covid, jsMul v (Fin 0.01)),
                           (excise, calculateExciseDuty h d)]
      in case taxes d of
           Some t \<Rightarrow>
             concat (map (\<lambda>(taxType, expected).
                       let actual = orZero (taxType t);
                           tolerance = jsMul expected (Fin 0.05)
                       in if jsGreater (jsAbs (jsSub actual expected)) tolerance
                          then [\<lparr>ftype = ''tax-discrepancy'', severity = Medium\<rparr>] else [])
                     expectedTaxes)
         | None \<Rightarrow> [])"

definition checkQualitySpecifications :: "Declaration \<Rightarrow> finding list" where
  "checkQualitySpecifications d =
     (if \<not> truthyStr (qualityCertificate d)
      then [\<lparr>ftype = ''missing-quality-certificate'', severity = Medium\<rparr>] else [])"

definition calculateShortfall :: "Declaration \<Rightarrow> jsnum" where
  "calculateShortfall d =
     (case atgReadings d of
        Some readings \<Rightarrow>
          if truthyNum (volume d)
          then (let shortfall = jsSub (toNum (volume d)) (toNum (finalVolume readings))
                in if jsGreater shortfall (Fin 0)
                   then jsDiv (jsMul shortfall (toNum (val d))) (toNum (volume d))
                   else Fin 0)
          else Fin 0
      | None \<Rightarrow> Fin 0)"

definition petroleumAnalyze :: "Declaration \<Rightarrow> error + AgentResult" where
  "petroleumAnalyze d =
     (case hsCode d of
        None \<Rightarrow> Inl TypeError
      | Some h \<Rightarrow>
          if \<not> isPetroleum h
          then Inr (generateResult ''petroleum-atg-002'' ''petroleum-atg'' (declId d)
                      False 1.0 0 [] (noMetadata\<lparr>md_note := Some ''Not a petroleum shipment''\<rparr>))
          else
            (let atgIssues = (if atgApplicable d then checkATGCompliance d
                              else [\<lparr>ftype = ''atg-not-applied'', severity = High\<rparr>]);
                 atgRisk = (if atgApplicable d then real (length atgIssues) * 15 else 30);
                 hv = (if atgApplicable d then length atgIssues > 0 else True);
                 volumeWeightIssues =
                   (if truthyNum (volume d) \<and> truthyNum (weight d)
                    then analyzeVolumeWeight d else []);
                 taxIssues = checkPetroleumTaxes h d;
                 qualityIssues = checkQualitySpecifications d;
                 fs = atgIssues @ volumeWeightIssues @ taxIssues @ qualityIssues;
                 rs = min 100 (atgRisk + real (length volumeWeightIssues) * 20
                                + real (length taxIssues) * 10
                                + real (length qualityIssues) * 15);
                 conf = (if rs > 70 then 0.96 else if rs > 40 then 0.88 else 0.9)
             in Inr (generateResult ''petroleum-atg-002'' ''petroleum-atg'' (declId d)
                       hv conf rs fs
                       (noMetadata\<lparr>petroleumType := Some (identifyPetroleumType h),
                          atgCompliant := Some (\<not> list_ex (\<lambda>f. strIncludes (ftype f) ''atg'') fs),
                          taxCompliant := Some (length taxIssues = 0),
                          estimatedShortfall := Some (calculateShortfall d)\<rparr>))))"

subsection \<open>Ghana Tax Compliance Agent\<close>

definition validateAllTaxes :: "Declaration \<Rightarrow> finding list" where
  "validateAllTaxes d =
     (let v = toNum (val d);
          expectedTaxes = [(vat, jsMul v (Fin 0.15)), (getFund, jsMul v (Fin 0.025)),
                           (nhil, jsMul v (Fin 0.025)), (covid, jsMul v (Fin 0.01)),
                           (importDuty, if ecowasOrigin d then Fin 0 else jsMul v (Fin 0.05))]
      in case taxes d of
           Some t \<Rightarrow>
             concat (map (\<lambda>(taxType, expected).
                       let actual = orZero (taxType t);
                           tolerance = jsMul expected (Fin 0.02)
                       in if jsGreater (jsAbs (jsSub actual expected)) tolerance
                          then (let difference = jsAbs (jsSub actual expected)
                                in [\<lparr>ftype = ''tax-calculation-error'',
                                     severity = (if jsGreater difference (jsMul expected (Fin 0.1))
                                                 then High else Medium)\<rparr>])
                          else [])
                     expectedTaxes)
         | None \<Rightarrow> [\<lparr>ftype = ''missing-tax-breakdown'', severity = Critical\<rparr>])"

definition isDigit :: "char \<Rightarrow> bool" where
  "isDigit c = (c \<in> set ''0123456789'')"

text \<open>The regular expression \<open>/^TIN\d{7,10}$/\<close>.\<close>

definition tinPattern :: "string \<Rightarrow> bool" where
  "tinPattern s =
     (startsWith s ''TIN'' \<and> list_all isDigit (drop 3 s)
      \<and> 7 \<le> length (drop 3 s) \<and> length (drop 3 s) \<le> 10)"

definition validateTIN :: "Declaration \<Rightarrow> finding list" where
  "validateTIN d =
     (case declarantTin d of
        None \<Rightarrow> [\<lparr>ftype = ''missing-tin'', severity = Critical\<rparr>]
      | Some tin \<Rightarrow>
          if tin = [] then [\<lparr>ftype = ''missing-tin'', severity = Critical\<rparr>]
          else if \<not> tinPattern tin
          then [\<lparr>ftype = ''invalid-tin-format'', severity = High\<rparr>]
          else [])"

definition validExemptions :: "string list" where
  "validExemptions = [''diplomatic'', ''un-agency'', ''government'', ''educational'',
     ''religious'', ''charitable'']"

definition validateExemptions :: "Declaration \<Rightarrow> finding list" where
  "validateExemptions d =
     (case exemptions d of
        None \<Rightarrow> []
      | Some es \<Rightarrow>
          concat (map (\<lambda>exemption.
                    if exemption \<notin> set validExemptions
                    then [\<lparr>ftype = ''invalid-exemption'', severity = High\<rparr>] else [])
                  es))"

definition verifyPayments :: "Declaration \<Rightarrow> finding list" where
  "verifyPayments d =
     (if paymentStatus d \<noteq> Some ''paid'' \<and> jsGreater (toNum (val d)) (Fin 100000)
      then [\<lparr>ftype = ''unpaid-high-value'', severity = High\<rparr>] else [])"

text \<open>\<open>Object.values(taxes).reduce((sum, tax) => sum + tax, 0)\<close>, with exact sums and
  products. The tax agent and the TSA agent each carry a copy of this method, with the
  same text.\<close>

definition calculateTotalTaxLiability :: "Declaration \<Rightarrow> jsnum" where
  "calculateTotalTaxLiability d =
     (let v = toNum (val d)
      in foldl (\<lambda>sum tax. jsAdd sum tax) (Fin 0)
           [jsMul v (Fin 0.15), jsMul v (Fin 0.025), jsMul v (Fin 0.025), jsMul v (Fin 0.01),
            (if ecowasOrigin d then Fin 0 else jsMul v (Fin 0.05))])"

text \<open>The amount paid is the sum of the values of the stated tax breakdown, here of
  those of its six known keys that are present.\<close>

definition calculateTaxGap :: "Declaration \<Rightarrow> jsnum" where
  "calculateTaxGap d =
     (case taxes d of
        None \<Rightarrow> calculateTotalTaxLiability d
      | Some t \<Rightarrow>
          (let expected = calculateTotalTaxLiability d;
               paid = foldl (\<lambda>sum tax. jsAdd sum tax) (Fin 0)
                        (List.map_filter (\<lambda>k. k t) [vat, getFund, nhil, covid, importDuty, excise])
           in jsMax (Fin 0) (jsSub expected paid)))"

definition taxAnalyze :: "Declaration \<Rightarrow> error + AgentResult" where
  "taxAnalyze d =
     (let taxIssues = validateAllTaxes d;
          tinIssues = validateTIN d;
          exemptionIssues = validateExemptions d;
          paymentIssues = verifyPayments d;
          fs = taxIssues @ tinIssues @ exemptionIssues @ paymentIssues;
          rs = min 100 (real (length taxIssues) * 12 + real (length tinIssues) * 15
                         + real (length exemptionIssues) * 20
                         + real (length paymentIssues) * 10)
      in Inr (generateResult ''tax-compliance-003'' ''tax-compliance'' (declId d)
                (length fs > 0) 1.0 rs fs
                (noMetadata\<lparr>totalTaxLiability := Some (calculateTotalTaxLiability d),
                   taxGap := Some (calculateTaxGap d),
                   complianceScore := Some (max 0 (100 - rs))\<rparr>)))"

subsection \<open>TSA Payment Reconciliation Agent\<close>

text \<open>The regular expression \<open>/^TSA\d{12}$/\<close>.\<close>

definition isValidTSAReference :: "string \<Rightarrow> bool" where
  "isValidTSAReference s =
     (startsWith s ''TSA'' \<and> list_all isDigit (drop 3 s) \<and> length (drop 3 s) = 12)"

definition verifyTSAPayments :: "Declaration \<Rightarrow> finding list" where
  "verifyTSAPayments d =
     (if \<not> truthyStr (tsaReference d)
      then [\<lparr>ftype = ''missing-tsa-reference'', severity = Critical\<rparr>] else [])
     @ (case tsaReference d of
          None \<Rightarrow> []
        | Some reference \<Rightarrow>
            if reference \<noteq> [] \<and> \<not> isValidTSAReference reference
            then [\<lparr>ftype = ''invalid-tsa-reference'', severity = High\<rparr>] else [])"

definition reconcileBankPayments :: "Declaration \<Rightarrow> finding list" where
  "reconcileBankPayments d =
     (case paymentConfirmation d of
        Some pc \<Rightarrow>
          (let expectedAmount = calculateTotalTaxLiability d;
               paidAmount = toNum (amount pc)
           in if jsGreater (jsAbs (jsSub paidAmount expectedAmount))
                   (jsMul expectedAmount (Fin 0.01))
              then [\<lparr>ftype = ''payment-mismatch'', severity = High\<rparr>] else [])
      | None \<Rightarrow> [])"

definition validateExchangeRates :: "Declaration \<Rightarrow> finding list" where
  "validateExchangeRates d =
     (if currency d \<noteq> Some ''GHS'' \<and> truthyNum (exchangeRate d)
      then (let officialRate = Fin 12.5;
                tolerance = jsMul officialRate (Fin 0.02)
            in if jsGreater (jsAbs (jsSub (toNum (exchangeRate d)) officialRate)) tolerance
               then [\<lparr>ftype = ''exchange-rate-discrepancy'', severity = Medium\<rparr>] else [])
      else [])"

definition getTSAStatus :: "Declaration \<Rightarrow> string" where
  "getTSAStatus d =
     (if \<not> truthyStr (tsaReference d) then ''not-initiated''
      else case paymentConfirmation d of
             None \<Rightarrow> ''pending''
           | Some pc \<Rightarrow> if verified pc then ''verified'' else ''unverified'')"

definition getReconciledAmount :: "Declaration \<Rightarrow> jsnum" where
  "getReconciledAmount d =
     (case paymentConfirmation d of None \<Rightarrow> Fin 0 | Some pc \<Rightarrow> orZero (amount pc))"

definition tsaAnalyze :: "Declaration \<Rightarrow> error + AgentResult" where
  "tsaAnalyze d =
     (let tsaIssues = verifyTSAPayments d;
          bankIssues = reconcileBankPayments d;
          exchangeIssues = validateExchangeRates d;
          fs = tsaIssues @ bankIssues @ exchangeIssues;
          rs = min 100 (real (length tsaIssues) * 25 + real (length bankIssues) * 15
                         + real (length exchangeIssues) * 10)
      in Inr (generateResult ''tsa-reconciliation-004'' ''tsa-reconciliation'' (declId d)
                (length fs > 0) 1.0 rs fs
                (noMetadata\<lparr>tsaStatus := Some (getTSAStatus d),
                   reconciledAmount := Some (getReconciledAmount d),
                   md_paymentMethod := paymentMethod d\<rparr>)))"

section \<open>Rule packs and the simulation harness\<close>

text \<open>Of a rule, the fields that \<open>evaluateDeclaration\<close> reads; \<open>ecowasOriginCheck\<close>
  is the field of that name of the rule's \<open>ghanaCompliance\<close> object.\<close>

record criteria =
  valueThreshold :: "jsnum option"
  weightThreshold :: "jsnum option"
  hsCodePatterns :: "string list option"
  countryPatterns :: "string list option"
  riskScoreThreshold :: "jsnum option"

record GhanaRule =
  ruleId :: string
  category :: string
  isActive :: bool
  ecowasOriginCheck :: bool
  criteria :: criteria

record RulePack =
  rules :: "GhanaRule list"

text \<open>\<open>pattern.replace('*', '')\<close> removes the first asterisk only.\<close>

fun removeFirstStar :: "string \<Rightarrow> string" where
  "removeFirstStar [] = []"
| "removeFirstStar (c # cs) = (if c = CHR ''*'' then cs else c # removeFirstStar cs)"

text \<open>The HS-code check of one rule: \<open>some\<close> over an empty pattern list calls nothing,
  otherwise \<open>declaration.hsCode.startsWith\<close> raises on a declaration without HS code.\<close>

definition hsPatternCheck :: "GhanaRule \<Rightarrow> Declaration \<Rightarrow> real \<Rightarrow> error + real" where
  "hsPatternCheck rule d rs =
     (case hsCodePatterns (criteria rule) of
        None \<Rightarrow> Inr rs
      | Some patterns \<Rightarrow>
          if patterns = [] then Inr rs
          else (case hsCode d of
                  None \<Rightarrow> Inl TypeError
                | Some h \<Rightarrow>
                    Inr (if list_ex (\<lambda>pattern. startsWith h (removeFirstStar pattern)) patterns
                         then rs + 20 else rs)))"

definition valueThresholdCheck :: "GhanaRule \<Rightarrow> Declaration \<Rightarrow> real \<Rightarrow> real" where
  "valueThresholdCheck rule d rs =
     (if truthyNum (valueThreshold (criteria rule))
         \<and> jsLess (toNum (val d)) (toNum (valueThreshold (criteria rule)))
      then rs + 15 else rs)"

definition countryCheck :: "GhanaRule \<Rightarrow> Declaration \<Rightarrow> real \<Rightarrow> real" where
  "countryCheck rule d rs =
     (case countryPatterns (criteria rule) of
        None \<Rightarrow> rs
      | Some cs \<Rightarrow>
          if ecowasOriginCheck rule
          then (let isEcowaSCountry = listIncludes cs (originCountry d)
                in if ecowasOrigin d \<and> \<not> isEcowaSCountry then rs + 30 else rs)
          else rs)"

definition sectorCheck :: "GhanaRule \<Rightarrow> Declaration \<Rightarrow> real \<Rightarrow> real" where
  "sectorCheck rule d rs = (if sector d = Some (category rule) then rs + 10 else rs)"

definition thresholdReached :: "GhanaRule \<Rightarrow> real \<Rightarrow> bool" where
  "thresholdReached rule rs =
     (truthyNum (riskScoreThreshold (criteria rule))
      \<and> jsGe (Fin rs) (toNum (riskScoreThreshold (criteria rule))))"

text \<open>
  The loop of \<open>evaluateDeclaration\<close> over the rules, with the running \<open>riskScore\<close>
  and \<open>hasViolation\<close>; the result is the pair \<open>(hasViolation, riskScore)\<close>. The test
  declaration is an object or \<open>null\<close>; on \<open>null\<close> every active rule raises, at the
  latest in its comparison with \<open>declaration.sector\<close>.
\<close>

fun evaluateLoop ::
  "Declaration option \<Rightarrow> GhanaRule list \<Rightarrow> real \<Rightarrow> bool \<Rightarrow> error + (bool \<times> real)" where
  "evaluateLoop x [] rs hv = Inr (hv, rs)"
| "evaluateLoop x (rule # rest) rs hv =
     (if \<not> isActive rule then evaluateLoop x rest rs hv
      else (case x of
              None \<Rightarrow> Inl TypeError
            | Some d \<Rightarrow>
                (case hsPatternCheck rule d rs of
                   Inl e \<Rightarrow> Inl e
                 | Inr rs1 \<Rightarrow>
                     (let rs4 = sectorCheck rule d
                                  (countryCheck rule d (valueThresholdCheck rule d rs1))
                      in evaluateLoop x rest rs4
                           (if thresholdReached rule rs4 then True else hv)))))"

definition evaluateDeclaration :: "RulePack \<Rightarrow> Declaration option \<Rightarrow> error + (bool \<times> real)" where
  "evaluateDeclaration rulePack x = evaluateLoop x (rules rulePack) 0 False"

text \<open>
  The score that one rule adds, stated from the criteria rather than from the loop:
  20 for a matching HS-code pattern, 15 for a value threshold that is present, not zero
  and above the declared value, 30 for an ECOWAS claim from a country outside the rule's
  country patterns when the rule checks ECOWAS origin, 10 for a rule of the
  declaration's sector. A \<open>null\<close> declaration matches nothing.
\<close>

definition ruleContribution :: "Declaration option \<Rightarrow> GhanaRule \<Rightarrow> real" where
  "ruleContribution x rule =
     (case x of
        None \<Rightarrow> 0
      | Some d \<Rightarrow>
          (if (case hsCode d of
                 None \<Rightarrow> False
               | Some h \<Rightarrow>
                   (case hsCodePatterns (criteria rule) of
                      None \<Rightarrow> False
                    | Some patterns \<Rightarrow>
                        list_ex (\<lambda>pattern. startsWith h (removeFirstStar pattern)) patterns))
           then 20 else 0)
          + (if (case valueThreshold (criteria rule) of
                   None \<Rightarrow> False
                 | Some t \<Rightarrow> t \<noteq> Fin 0 \<and> jsLess (toNum (val d)) t)
             then 15 else 0)
          + (if (case countryPatterns (criteria rule) of
                   None \<Rightarrow> False
                 | Some cs \<Rightarrow>
                     ecowasOriginCheck rule \<and> ecowasOrigin d
                     \<and> \<not> listIncludes cs (originCountry d))
             then 30 else 0)
          + (if sector d = Some (category rule) then 10 else 0))"

definition packScore :: "Declaration option \<Rightarrow> GhanaRule list \<Rightarrow> real" where
  "packScore x rs = sum_list (map (ruleContribution x) (filter isActive rs))"

text \<open>A rule whose risk-score threshold is present, not zero, and reached by a score.\<close>

definition marks :: "GhanaRule \<Rightarrow> real \<Rightarrow> bool" where
  "marks rule score =
     (case riskScoreThreshold (criteria rule) of
        None \<Rightarrow> False
      | Some t \<Rightarrow> t \<noteq> Fin 0 \<and> jsGe (Fin score) t)"

text \<open>
  The inputs on which \<open>evaluateDeclaration\<close> raises: some active rule meets a
  \<open>null\<close> declaration, or has HS-code patterns (at least one) and meets a declaration
  without HS code.
\<close>

definition ruleRaises :: "Declaration option \<Rightarrow> GhanaRule \<Rightarrow> bool" where
  "ruleRaises x rule =
     (isActive rule
      \<and> (case x of
            None \<Rightarrow> True
          | Some d \<Rightarrow>
              hsCode d = None
              \<and> (case hsCodePatterns (criteria rule) of
                    None \<Rightarrow> False
                  | Some patterns \<Rightarrow> patterns \<noteq> [])))"

definition harnessRaises :: "RulePack \<Rightarrow> Declaration option \<Rightarrow> bool" where
  "harnessRaises rulePack x = list_ex (ruleRaises x) (rules rulePack)"

section \<open>The audit runner\<close>

datatype scope = ScopeAll | ScopeHsCodes | ScopeShipments | ScopeDeclarations

text \<open>The two bounds of \<open>dateRange\<close> are the time values of \<open>new Date(start)\<close> and
  \<open>new Date(end)\<close>, \<open>None\<close> for a string that is no date.\<close>

record targetFilters =
  hsCodes :: "string list option"
  shipmentIds :: "string list option"
  declarationIds :: "string list option"
  dateRange :: "(int option \<times> int option) option"
  countries :: "string list option"
  riskThreshold :: "jsnum option"
  sectors :: "string list option"

record agentConfig =
  enableECOWASAgent :: bool
  enablePetroleumAgent :: bool
  enableTaxAgent :: bool
  enableTSAgent :: bool

text \<open>\<open>maxConcurrency\<close> is a number or missing; \<open>executeAudit\<close> does not parse its
  configuration. \<open>timeoutMs\<close> and \<open>enableRealTimeUpdates\<close> are read nowhere in the
  runner.\<close>

record executionOptions =
  parallelExecution :: bool
  maxConcurrency :: "jsnum option"

record AuditExecutionConfig =
  scope :: scope
  targetFilters :: targetFilters
  agentConfig :: agentConfig
  executionOptions :: executionOptions

datatype status = Running | Completed | Failed | Cancelled

record sectorStats =
  violations :: nat
  recovery :: jsnum
  declarations :: nat

text \<open>The three \<open>Record<string, ...>\<close> objects are association lists in insertion order.\<close>

record ghanaMetrics =
  totalViolations :: nat
  totalRecoveryAmount :: jsnum
  sectoralBreakdown :: "(string \<times> sectorStats) list"
  violationTypes :: "(string \<times> nat) list"
  riskDistribution :: "(string \<times> nat) list"
  complianceRate :: real

text \<open>
  \<open>AuditExecutionResult\<close>, without the identifiers, the timestamps and the two
  time-based blocks \<open>agentPerformance\<close> and \<open>performanceMetrics\<close>. An entry of
  \<open>errors\<close> keeps the declaration identifier and the agent type.
\<close>

record execution =
  status :: status
  totalDeclarations :: nat
  processedDeclarations :: nat
  failedDeclarations :: nat
  agentResults :: "AgentResult list"
  ghanaMetrics :: ghanaMetrics
  errors :: "(string option \<times> string) list"

type_synonym agent = "Declaration \<Rightarrow> error + AgentResult"

text \<open>The registry \<open>this.agents\<close>; a key that was never set yields \<open>undefined\<close>, whose
  \<open>analyze\<close> raises.\<close>

definition initializeAgents :: "string \<Rightarrow> agent" where
  "initializeAgents t =
     (if t = ''ecowas-origin'' then ecowasAnalyze
      else if t = ''petroleum-atg'' then petroleumAnalyze
      else if t = ''tax-compliance'' then taxAnalyze
      else if t = ''tsa-reconciliation'' then tsaAnalyze
      else (\<lambda>d. Inl TypeError))"

definition getEnabledAgents :: "(string \<Rightarrow> agent) \<Rightarrow> AuditExecutionConfig \<Rightarrow> (string \<times> agent) list" where
  "getEnabledAgents ags config =
     (if enableECOWASAgent (agentConfig config)
      then [(''ecowas-origin'', ags ''ecowas-origin'')] else [])
     @ (if enablePetroleumAgent (agentConfig config)
        then [(''petroleum-atg'', ags ''petroleum-atg'')] else [])
     @ (if enableTaxAgent (agentConfig config)
        then [(''tax-compliance'', ags ''tax-compliance'')] else [])
     @ (if enableTSAgent (agentConfig config)
        then [(''tsa-reconciliation'', ags ''tsa-reconciliation'')] else [])"

definition isEcowaSCountry :: "string option \<Rightarrow> bool" where
  "isEcowaSCountry country =
     listIncludes [''NG'', ''BJ'', ''CI'', ''BF'', ''ML'', ''NE'', ''SN'', ''SL'', ''TG''] country"

text \<open>\<open>shouldAgentRun\<close> on an entry of the declaration list. Three of its cases read
  a property of the entry and raise on \<open>null\<close>; the petroleum case also raises on an
  object without HS code.\<close>

definition shouldAgentRun :: "string \<Rightarrow> Declaration option \<Rightarrow> error + bool" where
  "shouldAgentRun atype x =
     (if atype = ''ecowas-origin''
      then (case x of
              None \<Rightarrow> Inl TypeError
            | Some d \<Rightarrow> Inr (ecowasOrigin d \<or> isEcowaSCountry (originCountry d)))
      else if atype = ''petroleum-atg''
      then (case x of
              None \<Rightarrow> Inl TypeError
            | Some d \<Rightarrow>
                (case hsCode d of
                   None \<Rightarrow> Inl TypeError
                 | Some h \<Rightarrow>
                     Inr (list_ex (\<lambda>code. startsWith h code)
                            [''2709'', ''2710'', ''2711'', ''2713''])))
      else if atype = ''tax-compliance'' then Inr True
      else if atype = ''tsa-reconciliation''
      then (case x of
              None \<Rightarrow> Inl TypeError
            | Some d \<Rightarrow> Inr (jsGreater (toNum (val d)) (Fin 1000)))
      else Inr True)"

text \<open>
  The loop of \<open>processDeclaration\<close> over the enabled agents. It returns the calls of
  \<open>analyze\<close> it made, in order, each with the agent type and the result, or \<open>None\<close> when
  that \<open>analyze\<close> raised and the inner \<open>catch\<close> dropped it; and the exception that left
  the function, if any. An exception of \<open>shouldAgentRun\<close> is outside the inner \<open>try\<close>.
  On a \<open>null\<close> entry every \<open>analyze\<close> raises at its first property read, and the inner
  \<open>catch\<close> raises in turn when its log line reads \<open>declaration.id\<close>.
\<close>

fun processCalls ::
  "Declaration option \<Rightarrow> (string \<times> agent) list
   \<Rightarrow> (string \<times> AgentResult option) list \<times> error option" where
  "processCalls x [] = ([], None)"
| "processCalls x ((atype, agent) # rest) =
     (case shouldAgentRun atype x of
        Inl e \<Rightarrow> ([], Some e)
      | Inr run \<Rightarrow>
          if run
          then (case x of
                  None \<Rightarrow> ([(atype, None)], Some TypeError)
                | Some d \<Rightarrow>
                    (case processCalls x rest of
                       (calls, err) \<Rightarrow>
                         ((atype, (case agent d of Inl e \<Rightarrow> None | Inr r \<Rightarrow> Some r)) # calls,
                          err)))
          else processCalls x rest)"

definition processDeclaration ::
  "(string \<Rightarrow> agent) \<Rightarrow> AuditExecutionConfig \<Rightarrow> Declaration option \<Rightarrow> error + AgentResult list" where
  "processDeclaration ags config x =
     (case processCalls x (getEnabledAgents ags config) of
        (calls, Some e) \<Rightarrow> Inl e
      | (calls, None) \<Rightarrow> Inr (List.map_filter snd calls))"

text \<open>The agent types whose \<open>analyze\<close> the runner calls for an entry, in order, whether
  or not the processing of the entry raises afterwards.\<close>

definition invokedAgents ::
  "(string \<Rightarrow> agent) \<Rightarrow> AuditExecutionConfig \<Rightarrow> Declaration option \<Rightarrow> string list" where
  "invokedAgents ags config x = map fst (fst (processCalls x (getEnabledAgents ags config)))"

subsection \<open>Filtering\<close>

text \<open>\<open>filter\<close> with a predicate that may raise: the first exception leaves the call.\<close>

fun filterE :: "('a \<Rightarrow> error + bool) \<Rightarrow> 'a list \<Rightarrow> error + 'a list" where
  "filterE p [] = Inr []"
| "filterE p (x # xs) =
     (case p x of
        Inl e \<Rightarrow> Inl e
      | Inr keep \<Rightarrow>
          (case filterE p xs of
             Inl e \<Rightarrow> Inl e
           | Inr ys \<Rightarrow> Inr (if keep then x # ys else ys)))"

text \<open>A predicate that reads a property of the entry raises on \<open>null\<close>.\<close>

definition onObject :: "(Declaration \<Rightarrow> bool) \<Rightarrow> Declaration option \<Rightarrow> error + bool" where
  "onObject p x = (case x of None \<Rightarrow> Inl TypeError | Some d \<Rightarrow> Inr (p d))"

definition hsCodeScope :: "string list \<Rightarrow> Declaration option \<Rightarrow> error + bool" where
  "hsCodeScope codes x =
     (if codes = [] then Inr False
      else (case x of
              None \<Rightarrow> Inl TypeError
            | Some decl \<Rightarrow>
                (case hsCode decl of
                   None \<Rightarrow> Inl TypeError
                 | Some h \<Rightarrow> Inr (list_ex (\<lambda>code. startsWith h code) codes))))"

definition scopeFilter ::
  "AuditExecutionConfig \<Rightarrow> Declaration option list \<Rightarrow> error + Declaration option list" where
  "scopeFilter config decls =
     (case scope config of
        ScopeHsCodes \<Rightarrow>
          (case hsCodes (targetFilters config) of
             Some codes \<Rightarrow> filterE (hsCodeScope codes) decls
           | None \<Rightarrow> Inr decls)
      | ScopeShipments \<Rightarrow>
          (case shipmentIds (targetFilters config) of
             Some ids \<Rightarrow> filterE (onObject (\<lambda>decl. listIncludes ids (shipmentId decl))) decls
           | None \<Rightarrow> Inr decls)
      | ScopeDeclarations \<Rightarrow>
          (case declarationIds (targetFilters config) of
             Some ids \<Rightarrow> filterE (onObject (\<lambda>decl. listIncludes ids (declId decl))) decls
           | None \<Rightarrow> Inr decls)
      | ScopeAll \<Rightarrow> Inr decls)"

text \<open>One optional filter applied to the outcome of the filters before it.\<close>

definition thenFilter ::
  "error + 'a list \<Rightarrow> ('a \<Rightarrow> error + bool) option \<Rightarrow> error + 'a list" where
  "thenFilter r p =
     (case p of
        None \<Rightarrow> r
      | Some q \<Rightarrow> (case r of Inl e \<Rightarrow> Inl e | Inr xs \<Rightarrow> filterE q xs))"

definition inDateRange :: "int option \<times> int option \<Rightarrow> Declaration \<Rightarrow> bool" where
  "inDateRange bounds decl =
     (case (date decl, bounds) of
        (Some declDate, Some start, Some end) \<Rightarrow> declDate \<ge> start \<and> declDate \<le> end
      | _ \<Rightarrow> False)"

definition commonFilters ::
  "AuditExecutionConfig \<Rightarrow> error + Declaration option list \<Rightarrow> error + Declaration option list" where
  "commonFilters config r =
     (let f1 = thenFilter r
                 (map_option (\<lambda>bounds. onObject (inDateRange bounds))
                    (dateRange (targetFilters config)));
          f2 = thenFilter f1
                 (map_option (\<lambda>cs. onObject (\<lambda>decl. listIncludes cs (originCountry decl)
                                                    \<or> listIncludes cs (destinationCountry decl)))
                    (countries (targetFilters config)));
          f3 = thenFilter f2
                 (map_option (\<lambda>t. onObject (\<lambda>decl. jsGe (orZero (declRiskScore decl)) t))
                    (riskThreshold (targetFilters config)))
      in thenFilter f3
           (map_option (\<lambda>ss. onObject (\<lambda>decl. listIncludes ss (sector decl)))
              (sectors (targetFilters config))))"

definition filterDeclarations ::
  "Declaration option list \<Rightarrow> AuditExecutionConfig \<Rightarrow> error + Declaration option list" where
  "filterDeclarations decls config = commonFilters config (scopeFilter config decls)"

subsection \<open>Aggregation\<close>

text \<open>\<open>v.metadata?.recoveryAmount || v.metadata?.estimatedShortfall || 0\<close>.\<close>

definition recoveryOf :: "AgentResult \<Rightarrow> jsnum" where
  "recoveryOf v =
     (if truthyNum (recoveryAmount (metadata v)) then toNum (recoveryAmount (metadata v))
      else orZero (estimatedShortfall (metadata v)))"

definition sectorOf :: "AgentResult \<Rightarrow> string" where
  "sectorOf r =
     (case md_sector (metadata r) of
        None \<Rightarrow> ''unknown''
      | Some s \<Rightarrow> if s = [] then ''unknown'' else s)"

definition addToGroup :: "(string \<times> AgentResult list) list \<Rightarrow> AgentResult \<Rightarrow> (string \<times> AgentResult list) list" where
  "addToGroup groups r =
     (let s = sectorOf r
      in if s \<in> fst ` set groups
         then map (\<lambda>(k, rs). if k = s then (k, rs @ [r]) else (k, rs)) groups
         else groups @ [(s, [r])])"

definition groupResultsBySector :: "AgentResult list \<Rightarrow> (string \<times> AgentResult list) list" where
  "groupResultsBySector results = foldl addToGroup [] results"

text \<open>\<open>counts[key] = (counts[key] || 0) + 1\<close> and \<open>counts[key]++\<close>.\<close>

definition bump :: "(string \<times> nat) list \<Rightarrow> string \<Rightarrow> (string \<times> nat) list" where
  "bump counts key =
     (if key \<in> fst ` set counts
      then map (\<lambda>(k, c). if k = key then (k, c + 1) else (k, c)) counts
      else counts @ [(key, 1)])"

text \<open>
  The risk bucket is computed from \<open>result.riskLevel\<close>. An agent result has no such
  property (neither \<open>AgentResultSchema\<close> nor \<open>generateResult\<close> has the key), so the read
  yields \<open>undefined\<close>, here \<open>None\<close>, and a comparison \<open>undefined >= n\<close> is false.
\<close>

definition riskLevel :: "AgentResult \<Rightarrow> real option" where
  "riskLevel result = None"

definition geNum :: "real option \<Rightarrow> real \<Rightarrow> bool" where
  "geNum x n = (case x of None \<Rightarrow> False | Some v \<Rightarrow> v \<ge> n)"

definition riskBucket :: "AgentResult \<Rightarrow> string" where
  "riskBucket result =
     (if geNum (riskLevel result) 80 then ''critical''
      else if geNum (riskLevel result) 60 then ''high''
      else if geNum (riskLevel result) 40 then ''medium''
      else ''low'')"

definition calculateGhanaMetrics :: "execution \<Rightarrow> execution" where
  "calculateGhanaMetrics e =
     (let vs = filter hasViolation (agentResults e);
          m = ghanaMetrics e
      in e\<lparr>ghanaMetrics :=
           \<lparr>totalViolations = length vs,
            totalRecoveryAmount = foldl (\<lambda>sum v. jsAdd sum (recoveryOf v)) (Fin 0) vs,
            sectoralBreakdown =
              map (\<lambda>(s, results).
                     (s,
                      \<lparr>violations = length (filter hasViolation results),
                       recovery = foldl (\<lambda>sum v. jsAdd sum (recoveryOf v)) (Fin 0)
                                    (filter hasViolation results),
                       declarations = length results\<rparr>))
                  (groupResultsBySector (agentResults e)),
            violationTypes = foldl bump (violationTypes m) (concat (map (map ftype \<circ> findings) vs)),
            riskDistribution = foldl bump (riskDistribution m) (map riskBucket (agentResults e)),
            complianceRate =
              (if length (agentResults e) > 0
               then (real (length (agentResults e)) - real (length vs))
                      / real (length (agentResults e)) * 100
               else 0)\<rparr>\<rparr>)"

text \<open>\<open>calculateFinalMetrics\<close> first fills the time-based blocks, which are not
  modelled, and then calls \<open>calculateGhanaMetrics\<close>.\<close>

definition calculateFinalMetrics :: "execution \<Rightarrow> execution" where
  "calculateFinalMetrics e = calculateGhanaMetrics e"

subsection \<open>Running an audit\<close>

text \<open>\<open>Array.prototype.slice(start, end)\<close>: each argument is truncated towards zero
  (\<open>NaN\<close> counts as 0), a negative index counts from the end, and both are clamped to
  the array.\<close>

definition jsTrunc :: "real \<Rightarrow> int" where
  "jsTrunc x = (if x \<ge> 0 then \<lfloor>x\<rfloor> else \<lceil>x\<rceil>)"

definition relativeIndex :: "nat \<Rightarrow> jsnum \<Rightarrow> nat" where
  "relativeIndex n v =
     (case v of
        NaN \<Rightarrow> 0
      | NegInf \<Rightarrow> 0
      | PosInf \<Rightarrow> n
      | Fin x \<Rightarrow>
          (let t = jsTrunc x
           in if t < 0 then nat (max (int n + t) 0) else nat (min t (int n))))"

definition slice :: "'a list \<Rightarrow> jsnum \<Rightarrow> jsnum \<Rightarrow> 'a list" where
  "slice xs start end =
     (let k = relativeIndex (length xs) start;
          final = relativeIndex (length xs) end
      in take (final - k) (drop k xs))"

text \<open>The loop of \<open>chunkArray\<close>: \<open>for (let i = 0; i < array.length; i += chunkSize)\<close>.
  Nothing bounds it when \<open>chunkSize\<close> is not positive, so the result is optional and
  \<open>None\<close> stands for a call that does not return.\<close>

partial_function (option) chunkLoop ::
  "'a list \<Rightarrow> jsnum \<Rightarrow> jsnum \<Rightarrow> 'a list list \<Rightarrow> 'a list list option" where
  "chunkLoop array chunkSize i chunks =
     (if jsLess i (Fin (real (length array)))
      then chunkLoop array chunkSize (jsAdd i chunkSize)
             (chunks @ [slice array i (jsAdd i chunkSize)])
      else Some chunks)"

declare chunkLoop.simps [code]

definition chunkArray :: "'a list \<Rightarrow> jsnum option \<Rightarrow> 'a list list option" where
  "chunkArray array chunkSize = chunkLoop array (toNum chunkSize) (Fin 0) []"

definition cancelExecution :: "execution \<Rightarrow> bool \<times> execution" where
  "cancelExecution e =
     (if status e = Running then (True, e\<lparr>status := Cancelled\<rparr>) else (False, e))"

text \<open>
  A progress callback receives the execution identifier and the running totals. What it
  can do to the execution goes through the public methods of the runner: it either only
  observes, as the callback of the API route does, or it calls
  \<open>cancelExecution(progress.executionId)\<close>, whose body runs at once.
\<close>

datatype AuditProgressCallback = OnlyObserves | CallsCancel

definition updateProgress :: "AuditProgressCallback option \<Rightarrow> execution \<Rightarrow> execution" where
  "updateProgress cb e =
     (case cb of
        None \<Rightarrow> e
      | Some OnlyObserves \<Rightarrow> e
      | Some CallsCancel \<Rightarrow> snd (cancelExecution e))"

text \<open>\<open>failedDeclarations++\<close>, and the same followed by the entry pushed on \<open>errors\<close>.
  Building that entry reads \<open>declaration.id\<close>, which raises on \<open>null\<close>.\<close>

definition countFailure :: "execution \<Rightarrow> execution" where
  "countFailure e = e\<lparr>failedDeclarations := failedDeclarations e + 1\<rparr>"

definition recordFailure :: "execution \<Rightarrow> Declaration \<Rightarrow> execution" where
  "recordFailure e d = (countFailure e)\<lparr>errors := errors e @ [(declId d, ''system'')]\<rparr>"

definition pushResults :: "execution \<Rightarrow> AgentResult list \<Rightarrow> execution" where
  "pushResults e results =
     e\<lparr>agentResults := agentResults e @ results,
       processedDeclarations := processedDeclarations e + 1\<rparr>"

definition recordResults :: "AuditProgressCallback option \<Rightarrow> execution \<Rightarrow> AgentResult list \<Rightarrow> execution" where
  "recordResults cb e results = updateProgress cb (pushResults e results)"

text \<open>
  One iteration of the loop of \<open>executeSequential\<close>: the execution after it, and the
  exception that leaves the loop, if any. On an object the \<open>catch\<close> of the iteration
  handles a failure. On \<open>null\<close> the \<open>catch\<close> raises itself after having counted the
  failure; and when no agent is enabled the \<open>try\<close> block has counted the entry as
  processed before the argument of \<open>updateProgress\<close> raised.
\<close>

definition sequentialStep ::
  "(string \<Rightarrow> agent) \<Rightarrow> AuditExecutionConfig \<Rightarrow> AuditProgressCallback option
   \<Rightarrow> execution \<Rightarrow> Declaration option \<Rightarrow> execution \<times> error option" where
  "sequentialStep ags config cb e x =
     (case processDeclaration ags config x of
        Inr results \<Rightarrow>
          (case x of
             Some d \<Rightarrow> (recordResults cb e results, None)
           | None \<Rightarrow> (countFailure (pushResults e results), Some TypeError))
      | Inl err \<Rightarrow>
          (case x of
             Some d \<Rightarrow> (recordFailure e d, None)
           | None \<Rightarrow> (countFailure e, Some TypeError)))"

fun executeSequential ::
  "(string \<Rightarrow> agent) \<Rightarrow> AuditExecutionConfig \<Rightarrow> AuditProgressCallback option
   \<Rightarrow> execution \<Rightarrow> Declaration option list \<Rightarrow> execution \<times> error option" where
  "executeSequential ags config cb e [] = (e, None)"
| "executeSequential ags config cb e (x # xs) =
     (case sequentialStep ags config cb e x of
        (e', Some err) \<Rightarrow> (e', Some err)
      | (e', None) \<Rightarrow> executeSequential ags config cb e' xs)"

text \<open>
  One batch of \<open>executeParallel\<close>. Each promise of the batch settles to the results of
  its entry or, after its \<open>catch\<close> has counted the failure, to \<open>null\<close> (here
  \<open>Inl\<close>); on a \<open>null\<close> entry that \<open>catch\<close> raises and the promise rejects.
  \<open>Promise.all\<close> then rejects and the exception leaves \<open>executeParallel\<close>; otherwise
  it returns the outcomes in the order of the batch and the \<open>forEach\<close> merges those
  that are not \<open>null\<close>. The failures of one batch are counted in batch order here, all
  of them before a rejection is acted on; the order in which the engine runs the
  handlers of one batch bears on the order of \<open>errors\<close> within the batch and on
  whether a failure is counted before or after the rejection is acted on.
\<close>

definition settle :: "execution \<Rightarrow> Declaration option \<times> (error + AgentResult list) \<Rightarrow> execution" where
  "settle e p =
     (case snd p of
        Inl err \<Rightarrow> (case fst p of Some d \<Rightarrow> recordFailure e d | None \<Rightarrow> countFailure e)
      | Inr results \<Rightarrow> e)"

definition rejects :: "Declaration option \<times> (error + AgentResult list) \<Rightarrow> bool" where
  "rejects p = (case snd p of Inl err \<Rightarrow> fst p = None | Inr results \<Rightarrow> False)"

definition mergeResult :: "AuditProgressCallback option \<Rightarrow> execution \<Rightarrow> error + AgentResult list \<Rightarrow> execution" where
  "mergeResult cb e result = (case result of Inr results \<Rightarrow> recordResults cb e results | Inl err \<Rightarrow> e)"

definition chunkStep ::
  "(string \<Rightarrow> agent) \<Rightarrow> AuditExecutionConfig \<Rightarrow> AuditProgressCallback option
   \<Rightarrow> execution \<Rightarrow> Declaration option list \<Rightarrow> execution \<times> error option" where
  "chunkStep ags config cb e chunk =
     (let results = map (processDeclaration ags config) chunk;
          e1 = foldl settle e (zip chunk results)
      in if list_ex rejects (zip chunk results) then (e1, Some TypeError)
         else (foldl (mergeResult cb) e1 results, None))"

fun parallelLoop ::
  "(string \<Rightarrow> agent) \<Rightarrow> AuditExecutionConfig \<Rightarrow> AuditProgressCallback option
   \<Rightarrow> execution \<Rightarrow> Declaration option list list \<Rightarrow> execution \<times> error option" where
  "parallelLoop ags config cb e [] = (e, None)"
| "parallelLoop ags config cb e (chunk # chunks) =
     (case chunkStep ags config cb e chunk of
        (e', Some err) \<Rightarrow> (e', Some err)
      | (e', None) \<Rightarrow> parallelLoop ags config cb e' chunks)"

definition executeParallel ::
  "(string \<Rightarrow> agent) \<Rightarrow> AuditExecutionConfig \<Rightarrow> AuditProgressCallback option
   \<Rightarrow> execution \<Rightarrow> Declaration option list \<Rightarrow> (execution \<times> error option) option" where
  "executeParallel ags config cb e decls =
     (case chunkArray decls (maxConcurrency (executionOptions config)) of
        None \<Rightarrow> None
      | Some chunks \<Rightarrow> Some (parallelLoop ags config cb e chunks))"

definition initialExecution :: "Declaration option list \<Rightarrow> execution" where
  "initialExecution decls =
     \<lparr>status = Running, totalDeclarations = length decls, processedDeclarations = 0,
      failedDeclarations = 0, agentResults = [],
      ghanaMetrics =
        \<lparr>totalViolations = 0, totalRecoveryAmount = Fin 0, sectoralBreakdown = [],
         violationTypes = [],
         riskDistribution = [(''low'', 0), (''medium'', 0), (''high'', 0), (''critical'', 0)],
         complianceRate = 0\<rparr>,
      errors = []\<rparr>"

definition failExecution :: "execution \<Rightarrow> execution" where
  "failExecution e = e\<lparr>status := Failed, errors := errors e @ [(Some ''system'', ''system'')]\<rparr>"

definition completeExecution :: "execution \<Rightarrow> execution" where
  "completeExecution e = (calculateFinalMetrics e)\<lparr>status := Completed\<rparr>"

text \<open>\<open>executeAudit\<close>; \<open>None\<close> is a call that does not return. An exception that
  leaves the filter or the loop is caught, and the execution, as it is then, ends
  \<open>failed\<close>.\<close>

definition executeAudit ::
  "(string \<Rightarrow> agent) \<Rightarrow> AuditExecutionConfig \<Rightarrow> Declaration option list
   \<Rightarrow> AuditProgressCallback option \<Rightarrow> execution option" where
  "executeAudit ags config decls cb =
     (let e0 = initialExecution decls
      in case filterDeclarations decls config of
           Inl err \<Rightarrow> Some (failExecution e0)
         | Inr filtered \<Rightarrow>
             (let e1 = e0\<lparr>totalDeclarations := length filtered\<rparr>
              in case (if parallelExecution (executionOptions config)
                       then executeParallel ags config cb e1 filtered
                       else Some (executeSequential ags config cb e1 filtered)) of
                   None \<Rightarrow> None
                 | Some (e2, Some err) \<Rightarrow> Some (failExecution e2)
                 | Some (e2, None) \<Rightarrow> Some (completeExecution e2)))"

subsection \<open>The states an execution passes through\<close>

text \<open>The successive values of a fold, the first one included.\<close>

fun scanl :: "('s \<Rightarrow> 'a \<Rightarrow> 's) \<Rightarrow> 's \<Rightarrow> 'a list \<Rightarrow> 's list" where
  "scanl f s [] = [s]"
| "scanl f s (x # xs) = s # scanl f (f s x) xs"

text \<open>The state inside a sequential iteration on \<open>null\<close> with no agent enabled, between
  the count as processed and the count as failed.\<close>

definition sequentialMid ::
  "(string \<Rightarrow> agent) \<Rightarrow> AuditExecutionConfig \<Rightarrow> execution \<Rightarrow> Declaration option \<Rightarrow> execution list" where
  "sequentialMid ags config e x =
     (case processDeclaration ags config x of
        Inr results \<Rightarrow> (case x of Some d \<Rightarrow> [] | None \<Rightarrow> [pushResults e results])
      | Inl err \<Rightarrow> [])"

fun sequentialStates ::
  "(string \<Rightarrow> agent) \<Rightarrow> AuditExecutionConfig \<Rightarrow> AuditProgressCallback option
   \<Rightarrow> execution \<Rightarrow> Declaration option list \<Rightarrow> execution list" where
  "sequentialStates ags config cb e [] = [e]"
| "sequentialStates ags config cb e (x # xs) =
     e # sequentialMid ags config e x
     @ (case sequentialStep ags config cb e x of
          (e', Some err) \<Rightarrow> [e']
        | (e', None) \<Rightarrow> sequentialStates ags config cb e' xs)"

fun parallelStates ::
  "(string \<Rightarrow> agent) \<Rightarrow> AuditExecutionConfig \<Rightarrow> AuditProgressCallback option
   \<Rightarrow> execution \<Rightarrow> Declaration option list list \<Rightarrow> execution list" where
  "parallelStates ags config cb e [] = [e]"
| "parallelStates ags config cb e (chunk # chunks) =
     (let results = map (processDeclaration ags config) chunk;
          e1 = foldl settle e (zip chunk results)
      in scanl settle e (zip chunk results)
         @ (if list_ex rejects (zip chunk results) then []
            else scanl (mergeResult cb) e1 results
                 @ parallelStates ags config cb (foldl (mergeResult cb) e1 results) chunks))"

definition finishStates :: "execution \<times> error option \<Rightarrow> execution list" where
  "finishStates r =
     (case snd r of
        Some err \<Rightarrow> [failExecution (fst r)]
      | None \<Rightarrow> [calculateFinalMetrics (fst r), completeExecution (fst r)])"

text \<open>
  The values that the execution record of one call of \<open>executeAudit\<close> takes, in order:
  after its creation, after the filter, after every step of the chosen loop, after the
  final metrics, after the status is set. When the call does not return the list ends
  with the last state it reached.
\<close>

definition executeAuditStates ::
  "(string \<Rightarrow> agent) \<Rightarrow> AuditExecutionConfig \<Rightarrow> Declaration option list
   \<Rightarrow> AuditProgressCallback option \<Rightarrow> execution list" where
  "executeAuditStates ags config decls cb =
     (let e0 = initialExecution decls
      in case filterDeclarations decls config of
           Inl err \<Rightarrow> [e0, failExecution e0]
         | Inr filtered \<Rightarrow>
             (let e1 = e0\<lparr>totalDeclarations := length filtered\<rparr>
              in if parallelExecution (executionOptions config)
                 then (case chunkArray filtered (maxConcurrency (executionOptions config)) of
                         None \<Rightarrow> [e0, e1]
                       | Some chunks \<Rightarrow>
                           [e0] @ parallelStates ags config cb e1 chunks
                           @ finishStates (parallelLoop ags config cb e1 chunks))
                 else [e0] @ sequentialStates ags config cb e1 filtered
                      @ finishStates (executeSequential ags config cb e1 filtered)))"

subsection \<open>Observations on a run\<close>

text \<open>The number of entries an execution has counted so far, and what one outcome
  of a batch adds to it in the first and in the second pass over the batch.\<close>

definition handled :: "execution \<Rightarrow> nat" where
  "handled e = processedDeclarations e + failedDeclarations e"

definition failureWeight :: "Declaration option \<times> (error + AgentResult list) \<Rightarrow> nat" where
  "failureWeight p = (case snd p of Inl err \<Rightarrow> 1 | Inr rs \<Rightarrow> 0)"

definition successWeight :: "error + AgentResult list \<Rightarrow> nat" where
  "successWeight r = (case r of Inl err \<Rightarrow> 0 | Inr rs \<Rightarrow> 1)"

text \<open>Whether the configuration enables at least one agent.\<close>

definition someAgentEnabled :: "AuditExecutionConfig \<Rightarrow> bool" where
  "someAgentEnabled config =
     (enableECOWASAgent (agentConfig config) \<or> enablePetroleumAgent (agentConfig config)
      \<or> enableTaxAgent (agentConfig config) \<or> enableTSAgent (agentConfig config))"

text \<open>
  Two kinds of run in which the counters do not add up. In sequential mode with no agent
  enabled, an entry \<open>null\<close> is counted as processed and then as failed, and the loop
  ends there; when that entry is the last of the filtered list the counters exceed the
  total. In parallel mode with a chunk size that is missing or \<open>NaN\<close>, the only chunk
  is empty and no entry of a non-empty filtered list is counted.
\<close>

definition overCounts :: "AuditExecutionConfig \<Rightarrow> Declaration option list \<Rightarrow> bool" where
  "overCounts config decls =
     (\<not> parallelExecution (executionOptions config) \<and> \<not> someAgentEnabled config
      \<and> (case filterDeclarations decls config of
            Inl err \<Rightarrow> False
          | Inr filtered \<Rightarrow>
              filtered \<noteq> [] \<and> last filtered = None \<and> None \<notin> set (butlast filtered)))"

definition skipsAll :: "AuditExecutionConfig \<Rightarrow> Declaration option list \<Rightarrow> bool" where
  "skipsAll config decls =
     (parallelExecution (executionOptions config)
      \<and> toNum (maxConcurrency (executionOptions config)) = NaN
      \<and> (case filterDeclarations decls config of
            Inl err \<Rightarrow> False
          | Inr filtered \<Rightarrow> filtered \<noteq> []))"

section \<open>Example inputs\<close>

text \<open>A declaration object with none of the optional properties, from which the
  concrete inputs below are built.\<close>

definition bareDeclaration :: Declaration where
  "bareDeclaration =
     \<lparr>declId = None, shipmentId = None, hsCode = None, originCountry = None,
      destinationCountry = None, transitCountries = None, val = None, weight = None,
      volume = None, ecowasOrigin = False, documents = None, atgApplicable = False,
      atgCertificate = None, atgReadings = None, qualityCertificate = None, taxes = None,
      declarantTin = None, exemptions = None, paymentStatus = None, tsaReference = None,
      paymentConfirmation = None, currency = None, exchangeRate = None,
      paymentMethod = None, date = None, sector = None, declRiskScore = None\<rparr>"

text \<open>\<open>{ecowasOrigin: true, originCountry: 'CN', value: 5000}\<close>, with no HS code.\<close>

definition chinaNoHsCode :: Declaration where
  "chinaNoHsCode = bareDeclaration\<lparr>originCountry := Some ''CN'', ecowasOrigin := True,
     val := Some (Fin 5000)\<rparr>"

text \<open>\<open>{value: 5000}\<close>, with no HS code.\<close>

definition valueOnly :: Declaration where
  "valueOnly = bareDeclaration\<lparr>val := Some (Fin 5000)\<rparr>"

text \<open>\<open>{hsCode: '27101990', originCountry: 'CN', ecowasOrigin: true}\<close>, the scenario of the
  specification.\<close>

definition chinaPetroleum :: Declaration where
  "chinaPetroleum = bareDeclaration\<lparr>hsCode := Some ''27101990'', originCountry := Some ''CN'',
     ecowasOrigin := True\<rparr>"

text \<open>The same with the negative value \<open>- 5\<close>.\<close>

definition negativeValue :: Declaration where
  "negativeValue = chinaPetroleum\<lparr>val := Some (Fin (- 5))\<rparr>"

text \<open>Cotton declared as of ECOWAS origin, shipped from China to Ghana, value 1000,
  with a certificate of origin.\<close>

definition textileFromChina :: Declaration where
  "textileFromChina = bareDeclaration\<lparr>hsCode := Some ''52010000'', originCountry := Some ''CN'',
     destinationCountry := Some ''GH'', ecowasOrigin := True, val := Some (Fin 1000),
     documents := Some [''certificate-of-origin'']\<rparr>"

text \<open>The mock declaration of the API route: petroleum from Nigeria, value 100000.\<close>

definition mockDeclaration :: Declaration where
  "mockDeclaration = bareDeclaration\<lparr>declId := Some ''DECL-001'', hsCode := Some ''27101990'',
     originCountry := Some ''NG'', destinationCountry := Some ''GH'', val := Some (Fin 100000),
     currency := Some ''USD'', weight := Some (Fin 5000), declarantTin := Some ''TIN1234567'',
     ecowasOrigin := True, atgApplicable := True, sector := Some ''petroleum'',
     declRiskScore := Some (Fin 75)\<rparr>"

definition noFilters :: targetFilters where
  "noFilters = \<lparr>hsCodes = None, shipmentIds = None, declarationIds = None, dateRange = None,
     countries = None, riskThreshold = None, sectors = None\<rparr>"

definition allAgents :: agentConfig where
  "allAgents = \<lparr>enableECOWASAgent = True, enablePetroleumAgent = True,
     enableTaxAgent = True, enableTSAgent = True\<rparr>"

definition noAgents :: agentConfig where
  "noAgents = \<lparr>enableECOWASAgent = False, enablePetroleumAgent = False,
     enableTaxAgent = False, enableTSAgent = False\<rparr>"

text \<open>Scope \<open>all\<close>, no filter, every agent enabled, sequential execution.\<close>

definition sequentialConfig :: AuditExecutionConfig where
  "sequentialConfig =
     \<lparr>scope = ScopeAll, targetFilters = noFilters, agentConfig = allAgents,
      executionOptions = \<lparr>parallelExecution = False, maxConcurrency = Some (Fin 10)\<rparr>\<rparr>"

text \<open>The same in parallel mode, with batches of two.\<close>

definition parallelConfig :: AuditExecutionConfig where
  "parallelConfig =
     sequentialConfig\<lparr>executionOptions :=
       \<lparr>parallelExecution = True, maxConcurrency = Some (Fin 2)\<rparr>\<rparr>"

text \<open>The same configurations with \<open>maxConcurrency: 0\<close>, which the schema
  \<open>z.number().default(10)\<close> of the runner and of the API route accepts.\<close>

definition zeroSequentialConfig :: AuditExecutionConfig where
  "zeroSequentialConfig =
     sequentialConfig\<lparr>executionOptions :=
       \<lparr>parallelExecution = False, maxConcurrency = Some (Fin 0)\<rparr>\<rparr>"

definition zeroParallelConfig :: AuditExecutionConfig where
  "zeroParallelConfig =
     sequentialConfig\<lparr>executionOptions :=
       \<lparr>parallelExecution = True, maxConcurrency = Some (Fin 0)\<rparr>\<rparr>"

text \<open>Parallel mode with no \<open>maxConcurrency\<close> in the execution options.\<close>

definition missingConcurrencyConfig :: AuditExecutionConfig where
  "missingConcurrencyConfig =
     sequentialConfig\<lparr>executionOptions := \<lparr>parallelExecution = True, maxConcurrency = None\<rparr>\<rparr>"

text \<open>Sequential mode with every agent disabled.\<close>

definition noAgentsConfig :: AuditExecutionConfig where
  "noAgentsConfig = sequentialConfig\<lparr>agentConfig := noAgents\<rparr>"

text \<open>Scope \<open>hs-codes\<close> with the filter \<open>hsCodes: ['2710']\<close>.\<close>

definition hsScopeConfig :: AuditExecutionConfig where
  "hsScopeConfig =
     sequentialConfig\<lparr>scope := ScopeHsCodes,
       targetFilters := noFilters\<lparr>hsCodes := Some [''2710'']\<rparr>\<rparr>"

text \<open>A pack of two active rules: the first has the risk-score threshold 30, the second
  has none; both match the HS codes of chapter 27.\<close>

definition thresholdRule :: GhanaRule where
  "thresholdRule =
     \<lparr>ruleId = ''rule-1'', category = ''general'', isActive = True, ecowasOriginCheck = False,
      criteria = \<lparr>valueThreshold = None, weightThreshold = None,
                  hsCodePatterns = Some [''2710*''], countryPatterns = None,
                  riskScoreThreshold = Some (Fin 30)\<rparr>\<rparr>"

definition plainRule :: GhanaRule where
  "plainRule =
     \<lparr>ruleId = ''rule-2'', category = ''general'', isActive = True, ecowasOriginCheck = False,
      criteria = \<lparr>valueThreshold = None, weightThreshold = None,
                  hsCodePatterns = Some [''27*''], countryPatterns = None,
                  riskScoreThreshold = None\<rparr>\<rparr>"

definition twoRulePack :: RulePack where
  "twoRulePack = \<lparr>rules = [thresholdRule, plainRule]\<rparr>"

text \<open>A pack of one active rule that requires ECOWAS-origin checking, with the value
  threshold 0 and the risk-score threshold 0, and with neither HS-code patterns nor
  country patterns.\<close>

definition zeroRule :: GhanaRule where
  "zeroRule =
     \<lparr>ruleId = ''rule-3'', category = ''general'', isActive = True, ecowasOriginCheck = True,
      criteria = \<lparr>valueThreshold = Some (Fin 0), weightThreshold = None,
                  hsCodePatterns = None, countryPatterns = None,
                  riskScoreThreshold = Some (Fin 0)\<rparr>\<rparr>"

definition zeroRulePack :: RulePack where
  "zeroRulePack = \<lparr>rules = [zeroRule]\<rparr>"

text \<open>A pack whose only rule is inactive.\<close>

definition inactivePack :: RulePack where
  "inactivePack = \<lparr>rules = [thresholdRule\<lparr>isActive := False\<rparr>]\<rparr>"

section \<open>Properties of the agents\<close>

lemma ecowasFinish_fields:
  "hasViolation (ecowasFinish d (hv, rs, conf, fs)) = hv"
  "findings (ecowasFinish d (hv, rs, conf, fs)) = fs @ verifyDocuments d"
  "riskScore (ecowasFinish d (hv, rs, conf, fs)) =
     min 100 (rs + real (length (verifyDocuments d)) * 10)"
  by (simp_all add: ecowasFinish_def generateResult_def Let_def)

text \<open>
  Claim C10. A declaration that does not claim ECOWAS origin and lists no
  certificate of origin gets a result with no violation, whose findings nonetheless hold
  a \<open>missing-document\<close> finding and whose risk score is 10.
\<close>

theorem C10_finding_without_violation:
  assumes "\<not> ecowasOrigin d"
    and "documents d = None \<or> (\<exists>ds. documents d = Some ds \<and> ''certificate-of-origin'' \<notin> set ds)"
  shows "\<exists>r. ecowasAnalyze d = Inr r \<and> hasViolation r = False
           \<and> (\<exists>f \<in> set (findings r). ftype f = ''missing-document'')
           \<and> riskScore r = 10"
proof -
  from assms(2) have docs: "verifyDocuments d = [\<lparr>ftype = ''missing-document'', severity = High\<rparr>]"
    by (auto simp: verifyDocuments_def)
  from assms(1) have "ecowasAnalyze d = Inr (ecowasFinish d (False, 0, 0.85, []))"
    by (simp add: ecowasAnalyze_def)
  then show ?thesis
    by (simp add: ecowasFinish_fields docs)
qed

theorem C10_finding_without_violation_witness:
  "\<not> ecowasOrigin bareDeclaration \<and> documents bareDeclaration = None
   \<and> (\<exists>r. ecowasAnalyze bareDeclaration = Inr r \<and> hasViolation r = False
           \<and> (\<exists>f \<in> set (findings r). ftype f = ''missing-document'')
           \<and> riskScore r = 10)"
proof -
  have h1: "\<not> ecowasOrigin bareDeclaration" by (simp add: bareDeclaration_def)
  have h2: "documents bareDeclaration = None" by (simp add: bareDeclaration_def)
  from C10_finding_without_violation [OF h1 disjI1 [OF h2]] h1 h2 show ?thesis by blast
qed

text \<open>
  The origin-fraud property on the declarations for which \<open>analyze\<close> returns: one
  \<open>origin-fraud\<close> finding, critical, and a violation.
\<close>

lemma ecowasAnalyze_origin_fraud:
  assumes "ecowasOrigin d" and "\<not> listIncludes ecowasCountries (originCountry d)"
    and "ecowasAnalyze d = Inr r"
  shows "hasViolation r \<and> length (filter (\<lambda>f. ftype f = ''origin-fraud'') (findings r)) = 1
         \<and> (\<forall>f \<in> set (findings r). ftype f = ''origin-fraud'' \<longrightarrow> severity f = Critical)"
  using assms
  by (auto simp: ecowasAnalyze_def originCheck_def patternCheck_def valueCheck_def
        ecowasFinish_def generateResult_def verifyDocuments_def Let_def
      split: if_splits sum.splits option.splits)

text \<open>
  Claim C2. A declaration that claims ECOWAS origin from a country outside the ECOWAS
  set should get a result with a violation and exactly one critical \<open>origin-fraud\<close>
  finding. On the declaration \<open>{ecowasOrigin: true, originCountry: 'CN', value: 5000}\<close>,
  which has no HS code, \<open>analyze\<close> raises instead of returning a result: the
  under-valuation check reads \<open>declaration.hsCode.startsWith\<close> without the presence test
  that the suspicious-pattern check two statements earlier makes.
\<close>

theorem C2_analyze_raises_without_hsCode:
  "ecowasOrigin chinaNoHsCode \<and> originCountry chinaNoHsCode = Some ''CN''
   \<and> ''CN'' \<notin> set ecowasCountries
   \<and> ecowasAnalyze chinaNoHsCode = Inl TypeError"
  by (simp add: chinaNoHsCode_def bareDeclaration_def ecowasCountries_def ecowasAnalyze_def
        originCheck_def patternCheck_def valueCheck_def isUnderValued_def listIncludes_def
        truthyNum_def jsTruthy_def toNum_def)

text \<open>
  Claim C4. On a declaration whose HS code starts with none of the petroleum prefixes
  the petroleum agent returns at once: no violation, confidence 1, risk score 0, no
  findings, whatever the other fields hold.
\<close>

theorem C4_non_petroleum_early_exit:
  assumes "hsCode d = Some h"
    and "\<forall>code \<in> set [''2709'', ''2710'', ''2711'', ''2713'']. \<not> startsWith h code"
  shows "\<exists>r. petroleumAnalyze d = Inr r \<and> hasViolation r = False \<and> confidence r = 1
           \<and> riskScore r = 0 \<and> findings r = []"
proof -
  from assms(2) have "\<not> isPetroleum h"
    by (simp add: isPetroleum_def petroleumHSCodes_def)
  with assms(1) show ?thesis
    by (simp add: petroleumAnalyze_def generateResult_def)
qed

theorem C4_non_petroleum_early_exit_witness:
  "hsCode (bareDeclaration\<lparr>hsCode := Some ''52010000''\<rparr>) = Some ''52010000''
   \<and> \<not> startsWith ''52010000'' ''2709'' \<and> \<not> startsWith ''52010000'' ''2710''
   \<and> \<not> startsWith ''52010000'' ''2711'' \<and> \<not> startsWith ''52010000'' ''2713''
   \<and> (\<exists>r. petroleumAnalyze (bareDeclaration\<lparr>hsCode := Some ''52010000''\<rparr>) = Inr r
           \<and> hasViolation r = False \<and> confidence r = 1 \<and> riskScore r = 0 \<and> findings r = [])"
proof -
  have h1: "hsCode (bareDeclaration\<lparr>hsCode := Some ''52010000''\<rparr>) = Some ''52010000''"
    by simp
  have h2: "\<forall>code \<in> set [''2709'', ''2710'', ''2711'', ''2713'']. \<not> startsWith ''52010000'' code"
    by (simp add: startsWith_def)
  from C4_non_petroleum_early_exit [OF h1 h2] h1 h2 show ?thesis by simp
qed

text \<open>
  The total tax liability that the tax agent reports is computed from the declared value
  and the ECOWAS claim alone: replacing the stated tax breakdown does not change it.
\<close>

lemma totalTaxLiability_ignores_breakdown:
  "calculateTotalTaxLiability (d\<lparr>taxes := t\<rparr>) = calculateTotalTaxLiability d"
  by (simp add: calculateTotalTaxLiability_def Let_def)

section \<open>Properties of the simulation harness\<close>

lemma jsLess_NaN [simp]: "jsLess a NaN = False"
  by (cases a) simp_all

text \<open>The four checks of one iteration, each as the amount it adds.\<close>

lemma valueThresholdCheck_adds:
  "valueThresholdCheck rule d rs =
     rs + (if (case valueThreshold (criteria rule) of
                 None \<Rightarrow> False
               | Some t \<Rightarrow> t \<noteq> Fin 0 \<and> jsLess (toNum (val d)) t)
           then 15 else 0)"
proof (cases "valueThreshold (criteria rule)")
  case None
  then show ?thesis by (simp add: valueThresholdCheck_def truthyNum_def)
next
  case (Some t)
  then show ?thesis
    by (cases "t = NaN") (simp_all add: valueThresholdCheck_def truthyNum_def jsTruthy_def toNum_def)
qed

lemma countryCheck_adds:
  "countryCheck rule d rs =
     rs + (if (case countryPatterns (criteria rule) of
                 None \<Rightarrow> False
               | Some cs \<Rightarrow>
                   ecowasOriginCheck rule \<and> ecowasOrigin d
                   \<and> \<not> listIncludes cs (originCountry d))
           then 30 else 0)"
  by (cases "countryPatterns (criteria rule)") (simp_all add: countryCheck_def Let_def)

lemma sectorCheck_adds:
  "sectorCheck rule d rs = rs + (if sector d = Some (category rule) then 10 else 0)"
  by (simp add: sectorCheck_def)

lemma hsPatternCheck_adds:
  assumes "\<not> ruleRaises (Some d) rule" and "isActive rule"
  shows "hsPatternCheck rule d rs =
     Inr (rs + (if (case hsCode d of
                      None \<Rightarrow> False
                    | Some h \<Rightarrow>
                        (case hsCodePatterns (criteria rule) of
                           None \<Rightarrow> False
                         | Some patterns \<Rightarrow>
                             list_ex (\<lambda>pattern. startsWith h (removeFirstStar pattern)) patterns))
                then 20 else 0))"
proof (cases "hsCodePatterns (criteria rule)")
  case None
  then show ?thesis by (cases "hsCode d") (simp_all add: hsPatternCheck_def)
next
  case (Some patterns)
  show ?thesis
  proof (cases "hsCode d")
    case None
    with Some assms have "patterns = []" by (simp add: ruleRaises_def)
    with Some None show ?thesis by (simp add: hsPatternCheck_def)
  next
    case h: (Some h)
    with Some show ?thesis by (cases "patterns = []") (simp_all add: hsPatternCheck_def)
  qed
qed

text \<open>One iteration of the loop on an active rule that does not raise: the running
  score grows by the contribution of the rule.\<close>

lemma rule_step:
  assumes "\<not> ruleRaises (Some d) rule" and "isActive rule"
  shows "\<exists>rs1. hsPatternCheck rule d rs = Inr rs1
     \<and> sectorCheck rule d (countryCheck rule d (valueThresholdCheck rule d rs1))
         = rs + ruleContribution (Some d) rule"
  unfolding hsPatternCheck_adds [OF assms] sectorCheck_adds countryCheck_adds
    valueThresholdCheck_adds ruleContribution_def
  by simp

lemma thresholdReached_marks: "thresholdReached rule score = marks rule score"
proof (cases "riskScoreThreshold (criteria rule)")
  case None
  then show ?thesis by (simp add: thresholdReached_def marks_def truthyNum_def)
next
  case (Some t)
  then show ?thesis
    by (cases "t = NaN")
      (simp_all add: thresholdReached_def marks_def truthyNum_def jsTruthy_def toNum_def jsGe_def)
qed

text \<open>The rules of a list that mark, each with the score accumulated up to and including
  it, starting from \<open>acc\<close>.\<close>

lemma marking_inactive:
  assumes "\<not> isActive r"
  shows "(\<exists>before rule after. r # rs = before @ rule # after \<and> isActive rule
                  \<and> marks rule (acc + packScore x (before @ [rule])))
       \<longleftrightarrow> (\<exists>before rule after. rs = before @ rule # after \<and> isActive rule
                  \<and> marks rule (acc + packScore x (before @ [rule])))" (is "?L \<longleftrightarrow> ?R")
proof
  assume ?L
  then obtain before rule after where *: "r # rs = before @ rule # after" "isActive rule"
    "marks rule (acc + packScore x (before @ [rule]))"
    by blast
  from * assms obtain b' where b': "before = r # b'" by (cases before) auto
  with * have "rs = b' @ rule # after" by simp
  moreover from b' assms have "packScore x (before @ [rule]) = packScore x (b' @ [rule])"
    by (simp add: packScore_def)
  ultimately show ?R using * by metis
next
  assume ?R
  then obtain before rule after where *: "rs = before @ rule # after" "isActive rule"
    "marks rule (acc + packScore x (before @ [rule]))"
    by blast
  have "r # rs = (r # before) @ rule # after" using * by simp
  moreover from assms
  have "packScore x ((r # before) @ [rule]) = packScore x (before @ [rule])"
    by (simp add: packScore_def)
  ultimately show ?L using * by metis
qed

lemma marking_active:
  assumes "isActive r"
  shows "(\<exists>before rule after. r # rs = before @ rule # after \<and> isActive rule
                  \<and> marks rule (acc + packScore x (before @ [rule])))
       \<longleftrightarrow> marks r (acc + ruleContribution x r)
           \<or> (\<exists>before rule after. rs = before @ rule # after \<and> isActive rule
                  \<and> marks rule (acc + ruleContribution x r + packScore x (before @ [rule])))"
    (is "?L \<longleftrightarrow> ?T \<or> ?R")
proof
  have ps: "packScore x (r # xs) = ruleContribution x r + packScore x xs" for xs
    using assms by (simp add: packScore_def)
  assume ?L
  then obtain before rule after where *: "r # rs = before @ rule # after" "isActive rule"
    "marks rule (acc + packScore x (before @ [rule]))"
    by blast
  show "?T \<or> ?R"
  proof (cases before)
    case Nil
    with * have "rule = r" by simp
    with * Nil assms have ?T by (simp add: packScore_def)
    then show ?thesis ..
  next
    case (Cons b bs)
    with * have "b = r" "rs = bs @ rule # after" by simp_all
    moreover from Cons \<open>b = r\<close>
    have "acc + packScore x (before @ [rule])
            = acc + ruleContribution x r + packScore x (bs @ [rule])"
      using ps [of "bs @ [rule]"] by simp
    ultimately have ?R using * by metis
    then show ?thesis ..
  qed
next
  have ps: "packScore x (r # xs) = ruleContribution x r + packScore x xs" for xs
    using assms by (simp add: packScore_def)
  assume "?T \<or> ?R"
  then show ?L
  proof
    assume ?T
    moreover have "r # rs = [] @ r # rs" by simp
    moreover have "packScore x ([] @ [r]) = ruleContribution x r"
      using assms by (simp add: packScore_def)
    ultimately show ?L using assms by metis
  next
    assume ?R
    then obtain before rule after where *: "rs = before @ rule # after" "isActive rule"
      "marks rule (acc + ruleContribution x r + packScore x (before @ [rule]))"
      by blast
    have "r # rs = (r # before) @ rule # after" using * by simp
    moreover
    have "acc + packScore x ((r # before) @ [rule])
            = acc + ruleContribution x r + packScore x (before @ [rule])"
      using ps [of "before @ [rule]"] by simp
    ultimately show ?L using * by metis
  qed
qed

text \<open>
  The loop with its two accumulators, on an input on which no rule raises: the score
  grows by the contribution of every active rule, and the flag is raised at the first
  active rule that marks once its contribution has been added.
\<close>

lemma evaluateLoop_spec:
  assumes "\<not> list_ex (ruleRaises x) rs"
  shows "evaluateLoop x rs acc hv =
     Inr (hv \<or> (\<exists>before rule after. rs = before @ rule # after \<and> isActive rule
                  \<and> marks rule (acc + packScore x (before @ [rule]))),
          acc + packScore x rs)"
  using assms
proof (induction rs arbitrary: acc hv)
  case Nil
  then show ?case by (simp add: packScore_def)
next
  case (Cons r rs)
  from Cons.prems have nr: "\<not> ruleRaises x r" and rest: "\<not> list_ex (ruleRaises x) rs"
    by simp_all
  show ?case
  proof (cases "isActive r")
    case False
    with Cons.IH [OF rest] marking_inactive [OF False, of rs acc x] show ?thesis
      by (simp add: packScore_def)
  next
    case True
    with nr obtain d where x: "x = Some d" by (cases x) (auto simp: ruleRaises_def)
    from rule_step [of d r acc] nr True x obtain rs1 where
      s1: "hsPatternCheck r d acc = Inr rs1"
      and s4: "sectorCheck r d (countryCheck r d (valueThresholdCheck r d rs1))
                 = acc + ruleContribution x r"
      by blast
    let ?acc' = "acc + ruleContribution x r"
    have ps: "packScore x (r # rs) = ruleContribution x r + packScore x rs"
      using True by (simp add: packScore_def)
    from True x s1 s4
    have "evaluateLoop x (r # rs) acc hv
            = evaluateLoop x rs ?acc' (if marks r ?acc' then True else hv)"
      by (simp add: Let_def thresholdReached_marks)
    also have "\<dots> = Inr ((if marks r ?acc' then True else hv)
                    \<or> (\<exists>before rule after. rs = before @ rule # after \<and> isActive rule
                          \<and> marks rule (?acc' + packScore x (before @ [rule]))),
                   ?acc' + packScore x rs)"
      by (rule Cons.IH [OF rest])
    finally show ?thesis
      using marking_active [OF True, of rs acc x] ps by auto
  qed
qed

lemma evaluateLoop_raises:
  assumes "list_ex (ruleRaises x) rs"
  shows "evaluateLoop x rs acc hv = Inl TypeError"
  using assms
proof (induction rs arbitrary: acc hv)
  case Nil
  then show ?case by simp
next
  case (Cons r rs)
  show ?case
  proof (cases "ruleRaises x r")
    case True
    then show ?thesis
      by (auto simp: ruleRaises_def hsPatternCheck_def split: option.splits)
  next
    case False
    with Cons.prems have rest: "list_ex (ruleRaises x) rs" by simp
    show ?thesis
    proof (cases "isActive r")
      case inactive: False
      with Cons.IH [OF rest] show ?thesis by simp
    next
      case active: True
      with False obtain d where x: "x = Some d" by (cases x) (auto simp: ruleRaises_def)
      from rule_step [of d r acc] False active x obtain rs1 where
        "hsPatternCheck r d acc = Inr rs1" by blast
      with active x Cons.IH [OF rest] show ?thesis by (simp add: Let_def)
    qed
  qed
qed

text \<open>The harness raises on exactly the inputs that \<open>harnessRaises\<close> describes.\<close>

lemma evaluateDeclaration_raises:
  "harnessRaises pack x \<Longrightarrow> evaluateDeclaration pack x = Inl TypeError"
  by (simp add: harnessRaises_def evaluateDeclaration_def evaluateLoop_raises)

lemma split_index:
  "(\<exists>before rule after. rs = before @ rule # after \<and> P rule (before @ [rule]))
   \<longleftrightarrow> (\<exists>k < length rs. P (rs ! k) (take (Suc k) rs))"
proof
  assume "\<exists>before rule after. rs = before @ rule # after \<and> P rule (before @ [rule])"
  then obtain before rule after where *: "rs = before @ rule # after" "P rule (before @ [rule])"
    by blast
  then have "length before < length rs" "rs ! length before = rule"
    "take (Suc (length before)) rs = before @ [rule]" by simp_all
  with * show "\<exists>k < length rs. P (rs ! k) (take (Suc k) rs)" by metis
next
  assume "\<exists>k < length rs. P (rs ! k) (take (Suc k) rs)"
  then obtain k where k: "k < length rs" "P (rs ! k) (take (Suc k) rs)" by blast
  then have "rs = take k rs @ rs ! k # drop (Suc k) rs" by (simp add: id_take_nth_drop)
  moreover from k have "P (rs ! k) (take k rs @ [rs ! k])" by (simp add: take_Suc_conv_app_nth)
  ultimately show "\<exists>before rule after. rs = before @ rule # after \<and> P rule (before @ [rule])"
    by blast
qed

text \<open>
  Claim C6, as stated, at concrete inputs.

  \<^item> The pack \<open>twoRulePack\<close> holds two active rules; the first has the threshold 30. On
  the declaration with HS code 27101990 each rule adds 20. The accumulated score 40
  reaches the threshold 30 of an active rule, and the declaration is not marked: the
  threshold of a rule is compared with the score accumulated up to that rule, 20 here,
  not with the final score.

  \<^item> The rule of \<open>zeroRulePack\<close> is active and requires ECOWAS-origin checking; its value
  threshold 0 is present and exceeds the declared value \<open>- 5\<close>, the declaration claims
  ECOWAS origin from China, which is in no country-pattern list of the rule, and the
  score 0 meets the configured risk-score threshold 0. The harness adds neither 15 nor
  30 and does not mark the declaration: a threshold 0 is skipped like a missing one, and
  so is the ECOWAS check of a rule with no country-pattern list.

  \<^item> On a declaration without HS code, and on \<open>null\<close>, the harness raises and
  accumulates no score.
\<close>

theorem C6_final_score_counterexample:
  "evaluateDeclaration twoRulePack (Some chinaPetroleum) = Inr (False, 40)
   \<and> isActive thresholdRule \<and> thresholdRule \<in> set (rules twoRulePack)
   \<and> riskScoreThreshold (criteria thresholdRule) = Some (Fin 30) \<and> jsGe (Fin 40) (Fin 30)
   \<and> evaluateDeclaration zeroRulePack (Some negativeValue) = Inr (False, 0)
   \<and> isActive zeroRule \<and> zeroRule \<in> set (rules zeroRulePack)
   \<and> valueThreshold (criteria zeroRule) = Some (Fin 0) \<and> val negativeValue = Some (Fin (- 5))
   \<and> jsLess (Fin (- 5)) (Fin 0)
   \<and> ecowasOriginCheck zeroRule \<and> ecowasOrigin negativeValue
   \<and> originCountry negativeValue = Some ''CN'' \<and> countryPatterns (criteria zeroRule) = None
   \<and> riskScoreThreshold (criteria zeroRule) = Some (Fin 0) \<and> jsGe (Fin 0) (Fin 0)
   \<and> evaluateDeclaration twoRulePack (Some bareDeclaration) = Inl TypeError
   \<and> evaluateDeclaration twoRulePack None = Inl TypeError"
  by code_simp

text \<open>
  Claim C6, amended. On every input on which the harness returns, which is every input
  but those where an active rule meets \<open>null\<close> or lists HS-code patterns and meets a
  declaration without HS code, it returns the sum, over the active rules, of 20 for a
  matching HS-code pattern, 15 for a value threshold that is present, not zero and above
  the declared value, 30 for an ECOWAS claim from a country outside the country patterns
  of a rule that has such a list and checks ECOWAS origin, and 10 for a rule of the
  declaration's sector. The declaration is marked as a violation exactly when some active
  rule has a threshold that is present, not zero, and reached by the score accumulated
  over the rules up to and including that rule, in pack order.
\<close>

theorem C6_rule_score:
  assumes "\<not> harnessRaises pack x"
  shows "\<exists>hv score. evaluateDeclaration pack x = Inr (hv, score)
     \<and> score = packScore x (rules pack)
     \<and> (hv \<longleftrightarrow> (\<exists>k < length (rules pack). isActive (rules pack ! k)
               \<and> marks (rules pack ! k) (packScore x (take (Suc k) (rules pack)))))"
proof -
  from assms have nr: "\<not> list_ex (ruleRaises x) (rules pack)"
    by (simp add: harnessRaises_def)
  have "(\<exists>before rule after. rules pack = before @ rule # after \<and> isActive rule
                  \<and> marks rule (0 + packScore x (before @ [rule])))
     \<longleftrightarrow> (\<exists>before rule after. rules pack = before @ rule # after \<and> (isActive rule
                  \<and> marks rule (packScore x (before @ [rule]))))" by simp
  also have "\<dots> \<longleftrightarrow> (\<exists>k < length (rules pack). isActive (rules pack ! k)
               \<and> marks (rules pack ! k) (packScore x (take (Suc k) (rules pack))))"
    by (rule split_index [where P = "\<lambda>rule pre. isActive rule \<and> marks rule (packScore x pre)"])
  finally show ?thesis
    unfolding evaluateDeclaration_def evaluateLoop_spec [OF nr] by simp
qed

theorem C6_rule_score_witness:
  "\<not> harnessRaises twoRulePack (Some (chinaPetroleum\<lparr>val := Some (Fin 50)\<rparr>))
   \<and> packScore (Some (chinaPetroleum\<lparr>val := Some (Fin 50)\<rparr>)) (rules twoRulePack) = 40
   \<and> (\<exists>hv score. evaluateDeclaration twoRulePack (Some (chinaPetroleum\<lparr>val := Some (Fin 50)\<rparr>))
                    = Inr (hv, score)
     \<and> score = packScore (Some (chinaPetroleum\<lparr>val := Some (Fin 50)\<rparr>)) (rules twoRulePack)
     \<and> (hv \<longleftrightarrow> (\<exists>k < length (rules twoRulePack). isActive (rules twoRulePack ! k)
               \<and> marks (rules twoRulePack ! k)
                    (packScore (Some (chinaPetroleum\<lparr>val := Some (Fin 50)\<rparr>))
                       (take (Suc k) (rules twoRulePack))))))"
proof -
  have h: "\<not> harnessRaises twoRulePack (Some (chinaPetroleum\<lparr>val := Some (Fin 50)\<rparr>))"
    by code_simp
  have s: "packScore (Some (chinaPetroleum\<lparr>val := Some (Fin 50)\<rparr>)) (rules twoRulePack) = 40"
    by code_simp
  from C6_rule_score [OF h] h s show ?thesis by blast
qed

section \<open>Properties of the audit runner\<close>

subsection \<open>Agent selection\<close>

text \<open>
  With every agent enabled, on a declaration that has an HS code the processing returns,
  and the calls of \<open>analyze\<close> are exactly these, in this order: the origin agent when
  the declaration claims ECOWAS origin or its origin country is in the ECOWAS set, the
  petroleum agent when the HS code starts with a petroleum prefix, the tax agent, and
  the TSA agent when the declared value exceeds 1000.
\<close>

lemma agent_selection_with_hsCode:
  assumes "enableECOWASAgent (agentConfig config)" and "enablePetroleumAgent (agentConfig config)"
    and "enableTaxAgent (agentConfig config)" and "enableTSAgent (agentConfig config)"
    and "hsCode d = Some h"
  shows "invokedAgents ags config (Some d)
       = (if ecowasOrigin d
             \<or> listIncludes [''NG'', ''BJ'', ''CI'', ''BF'', ''ML'', ''NE'', ''SN'', ''SL'', ''TG'']
                  (originCountry d)
          then [''ecowas-origin''] else [])
         @ (if list_ex (\<lambda>code. startsWith h code) [''2709'', ''2710'', ''2711'', ''2713'']
            then [''petroleum-atg''] else [])
         @ [''tax-compliance'']
         @ (if jsGreater (toNum (val d)) (Fin 1000) then [''tsa-reconciliation''] else [])"
    and "\<exists>results. processDeclaration ags config (Some d) = Inr results"
  using assms
  by (simp_all add: invokedAgents_def processDeclaration_def getEnabledAgents_def
        shouldAgentRun_def isEcowaSCountry_def split: prod.splits)

text \<open>
  Claim C9. With every agent enabled the tax agent should be invoked for every
  declaration, and the TSA agent for every declaration whose value exceeds 1000. The
  declaration \<open>{value: 5000}\<close> has no HS code: the selection test of the petroleum agent
  reads \<open>declaration.hsCode.startsWith\<close> and raises, outside the \<open>try\<close> of
  \<open>processDeclaration\<close>, before the tax agent and the TSA agent are reached. No agent is
  invoked, the processing of the declaration raises, and the audit counts the
  declaration as failed.
\<close>

theorem C9_no_agent_invoked_without_hsCode:
  "enableECOWASAgent (agentConfig sequentialConfig)
   \<and> enablePetroleumAgent (agentConfig sequentialConfig)
   \<and> enableTaxAgent (agentConfig sequentialConfig)
   \<and> enableTSAgent (agentConfig sequentialConfig)
   \<and> val valueOnly = Some (Fin 5000) \<and> jsGreater (Fin 5000) (Fin 1000)
   \<and> invokedAgents initializeAgents sequentialConfig (Some valueOnly) = []
   \<and> ''tax-compliance'' \<notin> set (invokedAgents initializeAgents sequentialConfig (Some valueOnly))
   \<and> ''tsa-reconciliation''
         \<notin> set (invokedAgents initializeAgents sequentialConfig (Some valueOnly))
   \<and> processDeclaration initializeAgents sequentialConfig (Some valueOnly) = Inl TypeError
   \<and> map_option (\<lambda>e. (status e, processedDeclarations e, failedDeclarations e, agentResults e))
        (executeAudit initializeAgents sequentialConfig [Some valueOnly] None)
      = Some (Completed, 0, 1, [])"
  by code_simp

subsection \<open>The risk histogram\<close>

lemma riskBucket_low: "riskBucket r = ''low''"
  by (simp add: riskBucket_def riskLevel_def geNum_def)

lemma riskDistribution_all_low:
  "riskDistribution (ghanaMetrics (calculateGhanaMetrics e))
     = foldl bump (riskDistribution (ghanaMetrics e)) (replicate (length (agentResults e)) ''low'')"
proof -
  have "map riskBucket xs = replicate (length xs) ''low''" for xs
    by (induction xs) (simp_all add: riskBucket_low)
  then show ?thesis
    by (simp add: calculateGhanaMetrics_def Let_def)
qed

text \<open>
  Claim C3. The histogram should count an agent result under \<open>critical\<close> when its risk
  score is at least 80. The audit of one declaration below yields two agent results,
  with the risk scores 85 and 27; the histogram counts both under \<open>low\<close> and none under
  \<open>critical\<close>, because the bucket is computed from the property \<open>riskLevel\<close>, which an
  agent result does not have, instead of \<open>riskScore\<close>.
\<close>

theorem C3_risk_score_85_counted_low:
  "map_option (\<lambda>e. (map riskScore (agentResults e), riskDistribution (ghanaMetrics e)))
     (executeAudit initializeAgents sequentialConfig [Some textileFromChina] None)
   = Some ([85, 27], [(''low'', 2), (''medium'', 0), (''high'', 0), (''critical'', 0)])"
  by code_simp

subsection \<open>Batches\<close>

text \<open>A chunk size that is zero, negative or \<open>-Infinity\<close> keeps the index of the loop
  of \<open>chunkArray\<close> at or below zero: on a non-empty array the loop does not return.\<close>

lemma jsLe_zero_cases: "jsLe n (Fin 0) \<longleftrightarrow> n = NegInf \<or> (\<exists>x. n = Fin x \<and> x \<le> 0)"
  by (cases n) (auto simp: jsLe_def jsGe_def)

lemma jsLe_zero_add: "jsLe i (Fin 0) \<Longrightarrow> jsLe c (Fin 0) \<Longrightarrow> jsLe (jsAdd i c) (Fin 0)"
  by (auto simp: jsLe_zero_cases)

lemma jsLe_zero_less: "jsLe i (Fin 0) \<Longrightarrow> xs \<noteq> [] \<Longrightarrow> jsLess i (Fin (real (length xs)))"
  by (cases xs) (auto simp: jsLe_zero_cases)

lemma chunkLoop_hangs:
  assumes "chunkLoop xs c i chunks = Some r"
  shows "\<not> (jsLe c (Fin 0) \<and> jsLe i (Fin 0) \<and> xs \<noteq> [])"
proof (rule chunkLoop.raw_induct
    [where P = "\<lambda>xs c i chunks r. \<not> (jsLe c (Fin 0) \<and> jsLe i (Fin 0) \<and> xs \<noteq> [])", OF _ assms])
  fix f :: "'a list \<Rightarrow> jsnum \<Rightarrow> jsnum \<Rightarrow> 'a list list \<Rightarrow> 'a list list option"
    and array chunkSize i chunks r
  assume IH: "\<And>xs c j b y. f xs c j b = Some y
                \<Longrightarrow> \<not> (jsLe c (Fin 0) \<and> jsLe j (Fin 0) \<and> xs \<noteq> [])"
    and body: "(if jsLess i (Fin (real (length array)))
      then f array chunkSize (jsAdd i chunkSize)
             (chunks @ [slice array i (jsAdd i chunkSize)])
      else Some chunks) = Some r"
  show "\<not> (jsLe chunkSize (Fin 0) \<and> jsLe i (Fin 0) \<and> array \<noteq> [])"
  proof
    assume a: "jsLe chunkSize (Fin 0) \<and> jsLe i (Fin 0) \<and> array \<noteq> []"
    then have "jsLess i (Fin (real (length array)))" by (simp add: jsLe_zero_less)
    with body have "f array chunkSize (jsAdd i chunkSize)
                      (chunks @ [slice array i (jsAdd i chunkSize)]) = Some r"
      by simp
    from IH [OF this] a show False by (simp add: jsLe_zero_add)
  qed
qed

lemma chunkArray_hangs:
  "jsLe (toNum c) (Fin 0) \<Longrightarrow> xs \<noteq> [] \<Longrightarrow> chunkArray xs c = None"
  using chunkLoop_hangs [of xs "toNum c" "Fin 0" "[]"]
  by (cases "chunkArray xs c") (auto simp: chunkArray_def jsLe_def jsGe_def)

lemma chunkArray_empty: "chunkArray [] c = Some []"
  by (simp add: chunkArray_def chunkLoop.simps)

text \<open>With no chunk size, or with \<open>NaN\<close>, a non-empty array yields one empty chunk:
  \<open>slice(0, NaN)\<close> is empty and the index becomes \<open>NaN\<close>, which ends the loop.\<close>

lemma chunkArray_NaN:
  assumes "toNum c = NaN"
  shows "chunkArray xs c = Some (if xs = [] then [] else [[]])"
proof (cases xs)
  case Nil
  then show ?thesis by (simp add: chunkArray_empty)
next
  case (Cons a as)
  then have "chunkLoop xs NaN (Fin 0) [] = chunkLoop xs NaN NaN [slice xs (Fin 0) NaN]"
    by (subst chunkLoop.simps) simp
  also have "\<dots> = Some [slice xs (Fin 0) NaN]"
    by (subst chunkLoop.simps) simp
  finally show ?thesis using Cons assms
    by (simp add: chunkArray_def slice_def relativeIndex_def jsTrunc_def)
qed

lemma chunkArray_PosInf:
  assumes "toNum c = PosInf"
  shows "chunkArray xs c = Some (if xs = [] then [] else [xs])"
proof (cases xs)
  case Nil
  then show ?thesis by (simp add: chunkArray_empty)
next
  case (Cons a as)
  then have "chunkLoop xs PosInf (Fin 0) [] = chunkLoop xs PosInf PosInf [slice xs (Fin 0) PosInf]"
    by (subst chunkLoop.simps) simp
  also have "\<dots> = Some [slice xs (Fin 0) PosInf]"
    by (subst chunkLoop.simps) simp
  finally show ?thesis using Cons assms
    by (simp add: chunkArray_def slice_def relativeIndex_def jsTrunc_def)
qed

lemma slice_step:
  assumes "0 \<le> x" "x < real (length xs)" "0 < y"
  shows "slice xs (Fin x) (Fin (x + y)) @ drop (nat \<lfloor>x + y\<rfloor>) xs = drop (nat \<lfloor>x\<rfloor>) xs"
proof -
  let ?a = "nat \<lfloor>x\<rfloor>" and ?b = "nat \<lfloor>x + y\<rfloor>"
  from assms have fl: "0 \<le> \<lfloor>x\<rfloor>" "\<lfloor>x\<rfloor> \<le> \<lfloor>x + y\<rfloor>" "\<lfloor>x\<rfloor> < int (length xs)"
    by (simp_all add: floor_mono floor_less_iff)
  then have ab: "?a \<le> ?b" "?a < length xs" by (simp_all add: nat_less_iff)
  from assms fl have k: "relativeIndex (length xs) (Fin x) = ?a"
    by (simp add: relativeIndex_def jsTrunc_def Let_def min_def)
  from assms fl have final: "relativeIndex (length xs) (Fin (x + y)) = min ?b (length xs)"
    by (auto simp: relativeIndex_def jsTrunc_def Let_def min_def)
  have s: "slice xs (Fin x) (Fin (x + y)) = take (min ?b (length xs) - ?a) (drop ?a xs)"
    by (simp add: slice_def Let_def k final)
  show ?thesis
  proof (cases "?b \<le> length xs")
    case True
    from ab have "drop ?b xs = drop (?b - ?a) (drop ?a xs)" by simp
    with True s show ?thesis by (simp only: min.absorb1 append_take_drop_id)
  next
    case False
    then have "drop ?b xs = []" "min ?b (length xs) = length xs" by simp_all
    with s show ?thesis by simp
  qed
qed

text \<open>
  Whenever the loop of \<open>chunkArray\<close> returns for a positive chunk size, the chunks are
  consecutive slices of the array and make it up. The successive starts and ends are the
  same numbers, so this does not depend on how the index is rounded.
\<close>

lemma chunkLoop_concat:
  assumes "chunkLoop xs c i chunks = Some r"
  shows "\<forall>x y. c = Fin y \<and> 0 < y \<and> i = Fin x \<and> 0 \<le> x
           \<longrightarrow> (\<exists>cs. r = chunks @ cs \<and> concat cs = drop (nat \<lfloor>x\<rfloor>) xs)"
proof (rule chunkLoop.raw_induct
    [where P = "\<lambda>xs c i chunks r. \<forall>x y. c = Fin y \<and> 0 < y \<and> i = Fin x \<and> 0 \<le> x
           \<longrightarrow> (\<exists>cs. r = chunks @ cs \<and> concat cs = drop (nat \<lfloor>x\<rfloor>) xs)", OF _ assms])
  fix f :: "'a list \<Rightarrow> jsnum \<Rightarrow> jsnum \<Rightarrow> 'a list list \<Rightarrow> 'a list list option"
    and array chunkSize i chunks r
  assume IH: "\<And>xs c j b r. f xs c j b = Some r
                \<Longrightarrow> \<forall>x y. c = Fin y \<and> 0 < y \<and> j = Fin x \<and> 0 \<le> x
                      \<longrightarrow> (\<exists>cs. r = b @ cs \<and> concat cs = drop (nat \<lfloor>x\<rfloor>) xs)"
    and body: "(if jsLess i (Fin (real (length array)))
      then f array chunkSize (jsAdd i chunkSize)
             (chunks @ [slice array i (jsAdd i chunkSize)])
      else Some chunks) = Some r"
  show "\<forall>x y. chunkSize = Fin y \<and> 0 < y \<and> i = Fin x \<and> 0 \<le> x
           \<longrightarrow> (\<exists>cs. r = chunks @ cs \<and> concat cs = drop (nat \<lfloor>x\<rfloor>) array)"
  proof (intro allI impI)
    fix x y
    assume a: "chunkSize = Fin y \<and> 0 < y \<and> i = Fin x \<and> 0 \<le> x"
    show "\<exists>cs. r = chunks @ cs \<and> concat cs = drop (nat \<lfloor>x\<rfloor>) array"
    proof (cases "x < real (length array)")
      case True
      with a body have "f array (Fin y) (Fin (x + y))
                          (chunks @ [slice array (Fin x) (Fin (x + y))]) = Some r"
        by simp
      from IH [OF this] a obtain cs where
        cs: "r = (chunks @ [slice array (Fin x) (Fin (x + y))]) @ cs"
          "concat cs = drop (nat \<lfloor>x + y\<rfloor>) array"
        by (auto dest: spec [where x = "x + y"])
      have "concat (slice array (Fin x) (Fin (x + y)) # cs) = drop (nat \<lfloor>x\<rfloor>) array"
        using cs(2) slice_step [of x array y] a True by simp
      with cs(1) show ?thesis by (intro exI [where x = "slice array (Fin x) (Fin (x + y)) # cs"]) simp
    next
      case False
      with a body have "r = chunks" by simp
      moreover from False a have "length array \<le> nat \<lfloor>x\<rfloor>"
        by (simp add: le_nat_floor)
      ultimately show ?thesis by simp
    qed
  qed
qed

text \<open>Whenever \<open>chunkArray\<close> returns for a chunk size that is a number, the chunks make up
  the array; in every case they hold no more than the array.\<close>

lemma chunkArray_concat:
  assumes "chunkArray xs c = Some cs" and "toNum c \<noteq> NaN"
  shows "concat cs = xs"
proof (cases "xs = []")
  case True
  with assms show ?thesis by (simp add: chunkArray_empty)
next
  case False
  show ?thesis
  proof (cases "toNum c")
    case NaN
    with assms show ?thesis by simp
  next
    case NegInf
    with chunkArray_hangs [of c xs] False assms show ?thesis
      by (simp add: jsLe_zero_cases)
  next
    case (Fin y)
    show ?thesis
    proof (cases "0 < y")
      case True
      from assms(1) Fin have "chunkLoop xs (Fin y) (Fin 0) [] = Some cs"
        by (simp add: chunkArray_def)
      from chunkLoop_concat [OF this] True show ?thesis by simp
    next
      case nonpos: False
      with chunkArray_hangs [of c xs] False assms Fin show ?thesis
        by (simp add: jsLe_zero_cases)
    qed
  next
    case PosInf
    with chunkArray_PosInf [of c xs] assms False show ?thesis by simp
  qed
qed

lemma chunkArray_bound:
  assumes "chunkArray xs c = Some cs"
  shows "length (concat cs) \<le> length xs"
proof (cases "toNum c = NaN")
  case True
  with chunkArray_NaN [of c xs] assms show ?thesis by auto
next
  case False
  with chunkArray_concat [OF assms] show ?thesis by simp
qed

text \<open>For a chunk size that is a whole number, at least 1, \<open>chunkArray\<close> returns.\<close>

lemma chunkLoop_returns:
  assumes "1 \<le> n"
  shows "\<exists>r. chunkLoop xs (Fin (real n)) (Fin (real k)) chunks = Some r"
proof (induction "length xs - k" arbitrary: k chunks rule: less_induct)
  case less
  show ?case
  proof (cases "k < length xs")
    case False
    then show ?thesis by (subst chunkLoop.simps) simp
  next
    case True
    with assms have "length xs - (k + n) < length xs - k" by simp
    from less [OF this] obtain r where
      "chunkLoop xs (Fin (real n)) (Fin (real (k + n)))
         (chunks @ [slice xs (Fin (real k)) (Fin (real (k + n)))]) = Some r"
      by blast
    with True have "chunkLoop xs (Fin (real n)) (Fin (real k)) chunks = Some r"
      by (subst chunkLoop.simps) simp
    then show ?thesis ..
  qed
qed

lemma chunkArray_returns:
  assumes "c = Some (Fin (real n))" and "1 \<le> n"
  shows "\<exists>cs. chunkArray xs c = Some cs \<and> concat cs = xs"
proof -
  from chunkLoop_returns [OF assms(2), of xs 0 "[]"] assms(1)
  obtain cs where cs: "chunkArray xs c = Some cs"
    by (auto simp: chunkArray_def toNum_def)
  moreover from assms(1) have "toNum c \<noteq> NaN" by (simp add: toNum_def)
  ultimately show ?thesis using chunkArray_concat by blast
qed

text \<open>
  Claim C1. The two modes should produce the same metrics for every configuration and
  every list of declarations. With \<open>maxConcurrency: 0\<close> and one declaration the
  sequential run returns (with 3 violations in its metrics) and the parallel run does not
  return: the loop of \<open>chunkArray\<close> adds 0 to its index for ever.
\<close>

theorem C1_parallel_does_not_return_at_zero:
  "executeAudit initializeAgents zeroParallelConfig [Some chinaPetroleum] None = None
   \<and> map_option (totalViolations \<circ> ghanaMetrics)
        (executeAudit initializeAgents zeroSequentialConfig [Some chinaPetroleum] None) = Some 3"
proof
  have "filterDeclarations [Some chinaPetroleum] zeroParallelConfig = Inr [Some chinaPetroleum]"
    by code_simp
  moreover have "parallelExecution (executionOptions zeroParallelConfig)"
    "maxConcurrency (executionOptions zeroParallelConfig) = Some (Fin 0)"
    by (simp_all add: zeroParallelConfig_def)
  moreover have "chunkArray [Some chinaPetroleum] (Some (Fin 0)) = None"
    by (rule chunkArray_hangs) (simp_all add: toNum_def jsLe_zero_cases)
  ultimately show "executeAudit initializeAgents zeroParallelConfig [Some chinaPetroleum] None = None"
    by (simp add: executeAudit_def executeParallel_def Let_def)
  show "map_option (totalViolations \<circ> ghanaMetrics)
        (executeAudit initializeAgents zeroSequentialConfig [Some chinaPetroleum] None) = Some 3"
    by code_simp
qed

subsection \<open>Cancellation\<close>

text \<open>
  Claim C8. Once an execution is \<open>cancelled\<close> its status should not change again.
  In the run below the progress callback calls \<open>cancelExecution\<close> after the first
  declaration: the status goes from \<open>running\<close> to \<open>cancelled\<close>, and the end of
  \<open>executeAudit\<close>, which assigns the status without reading it, sets it to
  \<open>completed\<close>.
\<close>

theorem C8_cancelled_then_completed:
  "map status (executeAuditStates initializeAgents sequentialConfig [Some chinaPetroleum]
                 (Some CallsCancel))
     = [Running, Running, Cancelled, Cancelled, Completed]
   \<and> map_option status (executeAudit initializeAgents sequentialConfig [Some chinaPetroleum]
                           (Some CallsCancel))
     = Some Completed"
  by code_simp

subsection \<open>The two modes on a list of objects\<close>

text \<open>The filters keep entries of the list, so a list without \<open>null\<close> stays without.\<close>

lemma filterE_subset: "filterE p xs = Inr ys \<Longrightarrow> set ys \<subseteq> set xs"
  by (induction xs arbitrary: ys) (auto split: sum.splits if_splits)

lemma thenFilter_subset:
  assumes "thenFilter r p = Inr ys"
  shows "\<exists>xs. r = Inr xs \<and> set ys \<subseteq> set xs"
  using assms by (auto simp: thenFilter_def dest: filterE_subset split: option.splits sum.splits)

lemma scopeFilter_subset: "scopeFilter config decls = Inr ys \<Longrightarrow> set ys \<subseteq> set decls"
  by (auto simp: scopeFilter_def dest: filterE_subset split: scope.splits option.splits)

lemma filterDeclarations_subset:
  assumes "filterDeclarations decls config = Inr ys"
  shows "set ys \<subseteq> set decls"
proof -
  from assms obtain r where r: "commonFilters config r = Inr ys" "r = scopeFilter config decls"
    by (simp add: filterDeclarations_def)
  from r(1) obtain x3 where x3: "set ys \<subseteq> set x3" and
    "thenFilter (thenFilter (thenFilter r
         (map_option (\<lambda>bounds. onObject (inDateRange bounds)) (dateRange (targetFilters config))))
         (map_option (\<lambda>cs. onObject (\<lambda>decl. listIncludes cs (originCountry decl)
                                            \<or> listIncludes cs (destinationCountry decl)))
            (countries (targetFilters config))))
         (map_option (\<lambda>t. onObject (\<lambda>decl. jsGe (orZero (declRiskScore decl)) t))
            (riskThreshold (targetFilters config))) = Inr x3"
    unfolding commonFilters_def Let_def by (blast dest: thenFilter_subset)
  then obtain x2 where x2: "set x3 \<subseteq> set x2" and
    "thenFilter (thenFilter r
         (map_option (\<lambda>bounds. onObject (inDateRange bounds)) (dateRange (targetFilters config))))
         (map_option (\<lambda>cs. onObject (\<lambda>decl. listIncludes cs (originCountry decl)
                                            \<or> listIncludes cs (destinationCountry decl)))
            (countries (targetFilters config))) = Inr x2"
    by (blast dest: thenFilter_subset)
  then obtain x1 where x1: "set x2 \<subseteq> set x1" and
    "thenFilter r
         (map_option (\<lambda>bounds. onObject (inDateRange bounds)) (dateRange (targetFilters config)))
       = Inr x1"
    by (blast dest: thenFilter_subset)
  then obtain x0 where x0: "set x1 \<subseteq> set x0" and "r = Inr x0"
    by (blast dest: thenFilter_subset)
  with r(2) have "set x0 \<subseteq> set decls" by (simp add: scopeFilter_subset)
  with x0 x1 x2 x3 show ?thesis by blast
qed

text \<open>On objects neither loop raises, and a batch leaves the execution as the sequential
  steps over its entries do.\<close>

lemma sequentialStep_no_raise: "snd (sequentialStep ags config cb e (Some d)) = None"
  by (simp add: sequentialStep_def split: sum.splits)

lemma executeSequential_objects:
  assumes "None \<notin> set xs"
  shows "executeSequential ags config cb e xs
           = (foldl (\<lambda>e x. fst (sequentialStep ags config cb e x)) e xs, None)"
  using assms
proof (induction xs arbitrary: e)
  case Nil
  then show ?case by simp
next
  case (Cons x xs)
  then obtain d where x: "x = Some d" by (cases x) auto
  obtain e' r where step: "sequentialStep ags config cb e (Some d) = (e', r)"
    by (cases "sequentialStep ags config cb e (Some d)")
  with sequentialStep_no_raise [of ags config cb e d] have r: "r = None" by simp
  from Cons.prems have xs: "None \<notin> set xs" by simp
  from step r x Cons.IH [OF xs, of e'] show ?case by simp
qed

lemma settle_recordResults:
  "settle (recordResults cb e rs) z = recordResults cb (settle e z) rs"
  by (cases cb; cases "snd z"; cases "fst z")
     (auto simp: settle_def recordResults_def pushResults_def recordFailure_def countFailure_def
        updateProgress_def cancelExecution_def split: AuditProgressCallback.splits)

lemma foldl_settle_recordResults:
  "foldl settle (recordResults cb e rs) zs = recordResults cb (foldl settle e zs) rs"
  by (induction zs arbitrary: e) (simp_all add: settle_recordResults)

lemma chunkStep_objects:
  assumes "None \<notin> set chunk"
  shows "chunkStep ags config cb e chunk
           = (foldl (\<lambda>e x. fst (sequentialStep ags config cb e x)) e chunk, None)"
proof -
  let ?rs = "map (processDeclaration ags config) chunk"
  have nr: "\<not> list_ex rejects (zip chunk ?rs)"
  proof
    assume "list_ex rejects (zip chunk ?rs)"
    then obtain x r where "(x, r) \<in> set (zip chunk ?rs)" "rejects (x, r)"
      by (auto simp: list_ex_iff)
    then have "x \<in> set chunk" "x = None"
      by (auto dest: set_zip_leftD simp: rejects_def split: sum.splits)
    with assms show False by simp
  qed
  from assms
  have "foldl (mergeResult cb) (foldl settle e (zip chunk ?rs)) ?rs
          = foldl (\<lambda>e x. fst (sequentialStep ags config cb e x)) e chunk"
  proof (induction chunk arbitrary: e)
    case Nil
    then show ?case by simp
  next
    case (Cons x xs)
    then obtain d where x: "x = Some d" and xs: "None \<notin> set xs" by (cases x) auto
    show ?case
    proof (cases "processDeclaration ags config (Some d)")
      case (Inl err)
      then have "settle e (Some d, Inl err) = recordFailure e d"
        "mergeResult cb s (Inl err) = s"
        "fst (sequentialStep ags config cb e (Some d)) = recordFailure e d" for s
        by (simp_all add: settle_def mergeResult_def sequentialStep_def)
      with Inl x Cons.IH [OF xs, of "recordFailure e d"] show ?thesis by simp
    next
      case (Inr rs)
      then have "settle e (Some d, Inr rs) = e"
        "mergeResult cb s (Inr rs) = recordResults cb s rs"
        "fst (sequentialStep ags config cb e (Some d)) = recordResults cb e rs" for s
        by (simp_all add: settle_def mergeResult_def sequentialStep_def)
      with Inr x Cons.IH [OF xs, of "recordResults cb e rs"] show ?thesis
        by (simp add: foldl_settle_recordResults)
    qed
  qed
  with nr show ?thesis by (simp add: chunkStep_def Let_def)
qed

lemma parallelLoop_objects:
  assumes "None \<notin> set (concat chunks)"
  shows "parallelLoop ags config cb e chunks
           = (foldl (\<lambda>e x. fst (sequentialStep ags config cb e x)) e (concat chunks), None)"
  using assms
  by (induction chunks arbitrary: e) (simp_all add: chunkStep_objects)

lemma processDeclaration_options:
  "processDeclaration ags (config\<lparr>executionOptions := x\<rparr>) = processDeclaration ags config"
  by (rule ext) (simp add: processDeclaration_def getEnabledAgents_def)

lemma scopeFilter_options:
  "scopeFilter (config\<lparr>executionOptions := x\<rparr>) = scopeFilter config"
  by (rule ext) (simp add: scopeFilter_def split: scope.splits option.splits)

lemma commonFilters_options:
  "commonFilters (config\<lparr>executionOptions := x\<rparr>) = commonFilters config"
  by (rule ext) (simp add: commonFilters_def)

lemma filterDeclarations_options:
  "filterDeclarations decls (config\<lparr>executionOptions := x\<rparr>) = filterDeclarations decls config"
  by (simp add: filterDeclarations_def scopeFilter_options commonFilters_options)

lemma sequentialStep_options:
  "sequentialStep ags (config\<lparr>executionOptions := x\<rparr>) = sequentialStep ags config"
  by (intro ext) (simp add: sequentialStep_def processDeclaration_options)

text \<open>
  With a batch size that is a whole number, at least 1, and a list of declaration
  objects, the parallel mode returns, and it returns the same execution as the
  sequential mode: the same agent results in the same order, the same counters, and so
  the same metrics.
\<close>

lemma modes_agree_for_positive_concurrency:
  assumes "maxConcurrency (executionOptions config) = Some (Fin (real n))" and "1 \<le> n"
    and "None \<notin> set decls"
  shows "executeAudit ags (config\<lparr>executionOptions := (executionOptions config)\<lparr>parallelExecution := True\<rparr>\<rparr>) decls cb
       = executeAudit ags (config\<lparr>executionOptions := (executionOptions config)\<lparr>parallelExecution := False\<rparr>\<rparr>) decls cb"
proof (cases "filterDeclarations decls config")
  case (Inl err)
  then show ?thesis by (simp add: executeAudit_def filterDeclarations_options Let_def)
next
  case (Inr filtered)
  let ?p = "config\<lparr>executionOptions := (executionOptions config)\<lparr>parallelExecution := True\<rparr>\<rparr>"
  let ?s = "config\<lparr>executionOptions := (executionOptions config)\<lparr>parallelExecution := False\<rparr>\<rparr>"
  let ?e1 = "initialExecution decls\<lparr>totalDeclarations := length filtered\<rparr>"
  from filterDeclarations_subset [OF Inr] assms(3) have objs: "None \<notin> set filtered" by blast
  from chunkArray_returns [OF assms(1,2), of filtered] obtain cs where
    cs: "chunkArray filtered (maxConcurrency (executionOptions config)) = Some cs"
      "concat cs = filtered"
    by blast
  with objs have "None \<notin> set (concat cs)" by simp
  from parallelLoop_objects [OF this, of ags ?p cb ?e1] cs
  have "executeParallel ags ?p cb ?e1 filtered
          = Some (foldl (\<lambda>e x. fst (sequentialStep ags config cb e x)) ?e1 filtered, None)"
    by (simp add: executeParallel_def sequentialStep_options)
  moreover from executeSequential_objects [OF objs, of ags ?s cb ?e1]
  have "executeSequential ags ?s cb ?e1 filtered
          = (foldl (\<lambda>e x. fst (sequentialStep ags config cb e x)) ?e1 filtered, None)"
    by (simp add: sequentialStep_options)
  ultimately show ?thesis using Inr
    by (simp add: executeAudit_def filterDeclarations_options Let_def)
qed

subsection \<open>The counters of an execution\<close>

lemma scanl_nonempty: "scanl f s xs \<noteq> []"
  by (cases xs) simp_all

lemma last_scanl: "last (scanl f s xs) = foldl f s xs"
  by (induction xs arbitrary: s) (simp_all add: scanl_nonempty)

lemma foldl_weight:
  assumes "\<And>s x. handled (f s x) = handled s + w x" "\<And>s x. totalDeclarations (f s x) = totalDeclarations s"
  shows "handled (foldl f s xs) = handled s + sum_list (map w xs)
       \<and> totalDeclarations (foldl f s xs) = totalDeclarations s"
  by (induction xs arbitrary: s) (simp_all add: assms)

lemma scanl_weight:
  assumes "\<And>s x. handled (f s x) = handled s + w x" "\<And>s x. totalDeclarations (f s x) = totalDeclarations s"
    and "s' \<in> set (scanl f s xs)"
  shows "totalDeclarations s' = totalDeclarations s \<and> handled s' \<le> handled s + sum_list (map w xs)"
  using assms(3)
proof (induction xs arbitrary: s)
  case Nil
  then show ?case by simp
next
  case (Cons x xs)
  from Cons.prems have "s' = s \<or> s' \<in> set (scanl f (f s x) xs)" by simp
  then show ?case
  proof
    assume "s' = s" then show ?thesis by simp
  next
    assume "s' \<in> set (scanl f (f s x) xs)"
    from Cons.IH [OF this] show ?thesis by (simp add: assms(1,2))
  qed
qed

lemma handled_updateProgress:
  "handled (updateProgress cb e) = handled e"
  "totalDeclarations (updateProgress cb e) = totalDeclarations e"
  by (auto simp: handled_def updateProgress_def cancelExecution_def
      split: option.splits AuditProgressCallback.splits)

lemma handled_pushResults:
  "handled (pushResults e rs) = handled e + 1"
  "totalDeclarations (pushResults e rs) = totalDeclarations e"
  by (simp_all add: pushResults_def handled_def)

lemma handled_recordResults:
  "handled (recordResults cb e rs) = handled e + 1"
  "totalDeclarations (recordResults cb e rs) = totalDeclarations e"
  by (simp_all add: recordResults_def handled_updateProgress handled_pushResults)

lemma handled_countFailure:
  "handled (countFailure e) = handled e + 1"
  "totalDeclarations (countFailure e) = totalDeclarations e"
  by (simp_all add: countFailure_def handled_def)

lemma handled_recordFailure:
  "handled (recordFailure e d) = handled e + 1"
  "totalDeclarations (recordFailure e d) = totalDeclarations e"
  using handled_countFailure [of e] by (simp_all add: recordFailure_def handled_def)

lemma handled_settle:
  "handled (settle e p) = handled e + failureWeight p"
  "totalDeclarations (settle e p) = totalDeclarations e"
  by (simp_all add: settle_def failureWeight_def handled_recordFailure handled_countFailure
      split: sum.splits option.splits)

lemma handled_mergeResult:
  "handled (mergeResult cb e r) = handled e + successWeight r"
  "totalDeclarations (mergeResult cb e r) = totalDeclarations e"
  by (simp_all add: mergeResult_def successWeight_def handled_recordResults split: sum.splits)

lemma weights_sum:
  "sum_list (map failureWeight (zip ds (map f ds))) + sum_list (map successWeight (map f ds))
     = length ds"
  by (induction ds) (auto simp: failureWeight_def successWeight_def split: sum.splits)

lemma handled_final:
  "handled (calculateFinalMetrics e) = handled e"
  "totalDeclarations (calculateFinalMetrics e) = totalDeclarations e"
  "handled (completeExecution e) = handled e"
  "totalDeclarations (completeExecution e) = totalDeclarations e"
  "handled (failExecution e) = handled e"
  "totalDeclarations (failExecution e) = totalDeclarations e"
  by (simp_all add: handled_def calculateFinalMetrics_def calculateGhanaMetrics_def
        completeExecution_def failExecution_def Let_def)

lemma status_final:
  "status (completeExecution e) = Completed" "status (failExecution e) = Failed"
  by (simp_all add: completeExecution_def failExecution_def)

lemma initial_handled:
  "handled (initialExecution decls) = 0" "totalDeclarations (initialExecution decls) = length decls"
  "handled (initialExecution decls\<lparr>totalDeclarations := n\<rparr>) = 0"
  by (simp_all add: handled_def initialExecution_def)

lemma finishStates_handled:
  assumes "s \<in> set (finishStates r)"
  shows "handled s = handled (fst r) \<and> totalDeclarations s = totalDeclarations (fst r)"
  using assms by (auto simp: finishStates_def handled_final split: option.splits)

text \<open>The processing of an entry when no agent is enabled, and of \<open>null\<close> when one is.\<close>

lemma processDeclaration_no_agents:
  "\<not> someAgentEnabled config \<Longrightarrow> processDeclaration ags config x = Inr []"
  by (simp add: someAgentEnabled_def processDeclaration_def getEnabledAgents_def
        List.map_filter_simps)

lemma processDeclaration_null:
  "someAgentEnabled config \<Longrightarrow> processDeclaration ags config None = Inl TypeError"
  by (auto simp: someAgentEnabled_def processDeclaration_def getEnabledAgents_def
        shouldAgentRun_def)

text \<open>The sequential loop, step by step.\<close>

lemma sequentialStep_object:
  "\<exists>e'. sequentialStep ags config cb e (Some d) = (e', None)
        \<and> handled e' = handled e + 1 \<and> totalDeclarations e' = totalDeclarations e"
  by (cases "processDeclaration ags config (Some d)")
     (simp_all add: sequentialStep_def handled_recordResults handled_recordFailure)

lemma sequentialMid_object: "sequentialMid ags config e (Some d) = []"
  by (simp add: sequentialMid_def split: sum.splits)

lemma sequentialStep_null: "snd (sequentialStep ags config cb e None) = Some TypeError"
  by (simp add: sequentialStep_def split: sum.splits)

lemma sequentialStep_null_agents:
  assumes "someAgentEnabled config"
  shows "sequentialStep ags config cb e None = (countFailure e, Some TypeError)"
    and "sequentialMid ags config e None = []"
  by (simp_all add: sequentialStep_def sequentialMid_def processDeclaration_null [OF assms])

lemma sequentialStep_null_no_agents:
  assumes "\<not> someAgentEnabled config"
  shows "sequentialStep ags config cb e None = (countFailure (pushResults e []), Some TypeError)"
    and "sequentialMid ags config e None = [pushResults e []]"
  by (simp_all add: sequentialStep_def sequentialMid_def processDeclaration_no_agents [OF assms])

lemma sequential_states:
  assumes "someAgentEnabled config \<or> \<not> (xs \<noteq> [] \<and> last xs = None \<and> None \<notin> set (butlast xs))"
    and "s \<in> set (sequentialStates ags config cb e xs)"
  shows "totalDeclarations s = totalDeclarations e \<and> handled s \<le> handled e + length xs"
  using assms
proof (induction xs arbitrary: e)
  case Nil
  then show ?case by simp
next
  case (Cons x xs)
  show ?case
  proof (cases x)
    case (Some d)
    from sequentialStep_object [of ags config cb e d] obtain e' where
      e': "sequentialStep ags config cb e (Some d) = (e', None)"
        "handled e' = handled e + 1" "totalDeclarations e' = totalDeclarations e"
      by blast
    from Cons.prems(1) Some
    have c: "someAgentEnabled config \<or> \<not> (xs \<noteq> [] \<and> last xs = None \<and> None \<notin> set (butlast xs))"
      by (cases "xs = []") auto
    from Cons.prems(2) Some e'
    have "s = e \<or> s \<in> set (sequentialStates ags config cb e' xs)"
      by (simp add: sequentialMid_object)
    then show ?thesis
    proof
      assume "s = e" then show ?thesis by simp
    next
      assume "s \<in> set (sequentialStates ags config cb e' xs)"
      from Cons.IH [OF c this] e' show ?thesis by simp
    qed
  next
    case None
    show ?thesis
    proof (cases "someAgentEnabled config")
      case True
      from Cons.prems(2) None
      have "s = e \<or> s = countFailure e"
        by (auto simp: sequentialStep_null_agents [OF True])
      then show ?thesis by (auto simp: handled_countFailure)
    next
      case False
      with Cons.prems(1) None have "xs \<noteq> []" by auto
      then have len: "2 \<le> length (x # xs)" by (cases xs) simp_all
      from Cons.prems(2) None
      have "s = e \<or> s = pushResults e [] \<or> s = countFailure (pushResults e [])"
        by (auto simp: sequentialStep_null_no_agents [OF False])
      with len show ?thesis by (auto simp: handled_countFailure handled_pushResults)
    qed
  qed
qed

lemma sequentialStates_nonempty: "sequentialStates ags config cb e xs \<noteq> []"
  by (cases xs) simp_all

lemma sequential_last:
  "fst (executeSequential ags config cb e xs) = last (sequentialStates ags config cb e xs)"
proof (induction xs arbitrary: e)
  case Nil
  then show ?case by simp
next
  case (Cons x xs)
  obtain e' r where step: "sequentialStep ags config cb e x = (e', r)"
    by (cases "sequentialStep ags config cb e x")
  show ?case
  proof (cases r)
    case None
    with step Cons [of e'] show ?thesis by (simp add: sequentialStates_nonempty)
  next
    case (Some err)
    with step show ?thesis by simp
  qed
qed

lemma sequential_completed:
  assumes "executeSequential ags config cb e xs = (e', None)"
  shows "handled e' = handled e + length xs \<and> totalDeclarations e' = totalDeclarations e"
  using assms
proof (induction xs arbitrary: e)
  case Nil
  then show ?case by simp
next
  case (Cons x xs)
  show ?case
  proof (cases x)
    case None
    obtain e1 r where step: "sequentialStep ags config cb e None = (e1, r)"
      by (cases "sequentialStep ags config cb e None")
    with sequentialStep_null [of ags config cb e] have "r = Some TypeError" by simp
    with step Cons.prems None show ?thesis by simp
  next
    case (Some d)
    from sequentialStep_object [of ags config cb e d] obtain e1 where
      e1: "sequentialStep ags config cb e (Some d) = (e1, None)"
        "handled e1 = handled e + 1" "totalDeclarations e1 = totalDeclarations e"
      by blast
    with Cons.prems Some have "executeSequential ags config cb e1 xs = (e', None)" by simp
    from Cons.IH [OF this] e1 show ?thesis by simp
  qed
qed

text \<open>The parallel loop, batch by batch.\<close>

lemma parallel_states:
  assumes "s \<in> set (parallelStates ags config cb e chunks)"
  shows "totalDeclarations s = totalDeclarations e \<and> handled s \<le> handled e + length (concat chunks)"
  using assms
proof (induction chunks arbitrary: e)
  case Nil
  then show ?case by simp
next
  case (Cons chunk chunks)
  let ?rs = "map (processDeclaration ags config) chunk"
  let ?zs = "zip chunk ?rs"
  let ?e1 = "foldl settle e ?zs"
  let ?e2 = "foldl (mergeResult cb) ?e1 ?rs"
  have e1: "handled ?e1 = handled e + sum_list (map failureWeight ?zs)"
    "totalDeclarations ?e1 = totalDeclarations e"
    using foldl_weight [where f = settle and w = failureWeight and s = e and xs = ?zs]
    by (simp_all add: handled_settle)
  have e2: "handled ?e2 = handled ?e1 + sum_list (map successWeight ?rs)"
    "totalDeclarations ?e2 = totalDeclarations ?e1"
    using foldl_weight [where f = "mergeResult cb" and w = successWeight and s = ?e1 and xs = ?rs]
    by (simp_all add: handled_mergeResult)
  have sum: "sum_list (map failureWeight ?zs) + sum_list (map successWeight ?rs) = length chunk"
    by (rule weights_sum)
  from Cons.prems consider
      (a) "s \<in> set (scanl settle e ?zs)"
    | (b) "s \<in> set (scanl (mergeResult cb) ?e1 ?rs)"
    | (c) "s \<in> set (parallelStates ags config cb ?e2 chunks)"
    by (auto simp: Let_def split: if_splits)
  then show ?case
  proof cases
    case a
    from scanl_weight [where f = settle and w = failureWeight, OF _ _ a] sum
    show ?thesis by (simp add: handled_settle)
  next
    case b
    from scanl_weight [where f = "mergeResult cb" and w = successWeight, OF _ _ b] e1 sum
    show ?thesis by (simp add: handled_mergeResult)
  next
    case c
    from Cons.IH [OF c] e1 e2 sum show ?thesis by simp
  qed
qed

lemma parallelStates_nonempty: "parallelStates ags config cb e chunks \<noteq> []"
  by (cases chunks) (simp_all add: Let_def scanl_nonempty)

lemma parallel_last:
  "fst (parallelLoop ags config cb e chunks) = last (parallelStates ags config cb e chunks)"
proof (induction chunks arbitrary: e)
  case Nil
  then show ?case by simp
next
  case (Cons chunk chunks)
  let ?rs = "map (processDeclaration ags config) chunk"
  let ?zs = "zip chunk ?rs"
  show ?case
  proof (cases "list_ex rejects ?zs")
    case True
    then show ?thesis
      by (simp add: chunkStep_def Let_def scanl_nonempty last_scanl)
  next
    case False
    with Cons [of "foldl (mergeResult cb) (foldl settle e ?zs) ?rs"] show ?thesis
      by (simp add: chunkStep_def Let_def parallelStates_nonempty)
  qed
qed

lemma parallel_completed:
  assumes "parallelLoop ags config cb e chunks = (e', None)"
  shows "handled e' = handled e + length (concat chunks)
         \<and> totalDeclarations e' = totalDeclarations e"
  using assms
proof (induction chunks arbitrary: e)
  case Nil
  then show ?case by simp
next
  case (Cons chunk chunks)
  let ?rs = "map (processDeclaration ags config) chunk"
  let ?zs = "zip chunk ?rs"
  let ?e1 = "foldl settle e ?zs"
  let ?e2 = "foldl (mergeResult cb) ?e1 ?rs"
  have e1: "handled ?e1 = handled e + sum_list (map failureWeight ?zs)"
    "totalDeclarations ?e1 = totalDeclarations e"
    using foldl_weight [where f = settle and w = failureWeight and s = e and xs = ?zs]
    by (simp_all add: handled_settle)
  have e2: "handled ?e2 = handled ?e1 + sum_list (map successWeight ?rs)"
    "totalDeclarations ?e2 = totalDeclarations ?e1"
    using foldl_weight [where f = "mergeResult cb" and w = successWeight and s = ?e1 and xs = ?rs]
    by (simp_all add: handled_mergeResult)
  have sum: "sum_list (map failureWeight ?zs) + sum_list (map successWeight ?rs) = length chunk"
    by (rule weights_sum)
  show ?case
  proof (cases "list_ex rejects ?zs")
    case True
    with Cons.prems show ?thesis by (simp add: chunkStep_def Let_def)
  next
    case False
    with Cons.prems have "parallelLoop ags config cb ?e2 chunks = (e', None)"
      by (simp add: chunkStep_def Let_def)
    from Cons.IH [OF this] e1 e2 sum show ?thesis by simp
  qed
qed

text \<open>Every state of a run keeps the counters within the total, unless the run counts
  an entry twice.\<close>

lemma states_bounded:
  assumes "\<not> overCounts config decls"
    and "s \<in> set (executeAuditStates ags config decls cb)"
  shows "handled s \<le> totalDeclarations s"
proof (cases "filterDeclarations decls config")
  case (Inl err)
  with assms(2) show ?thesis
    by (auto simp: executeAuditStates_def Let_def handled_final initial_handled)
next
  case (Inr filtered)
  let ?e0 = "initialExecution decls"
  let ?e1 = "?e0\<lparr>totalDeclarations := length filtered\<rparr>"
  have e1: "handled ?e1 = 0" "totalDeclarations ?e1 = length filtered"
    by (simp_all add: initial_handled)
  show ?thesis
  proof (cases "parallelExecution (executionOptions config)")
    case False
    let ?ss = "sequentialStates ags config cb ?e1 filtered"
    from assms(1) Inr False
    have c: "someAgentEnabled config
             \<or> \<not> (filtered \<noteq> [] \<and> last filtered = None \<and> None \<notin> set (butlast filtered))"
      by (auto simp: overCounts_def)
    have bound: "totalDeclarations t = length filtered \<and> handled t \<le> length filtered"
      if "t \<in> set ?ss" for t
      using sequential_states [OF c that] e1 by simp
    from assms(2) Inr False consider "s = ?e0" | "s \<in> set ?ss"
      | "s \<in> set (finishStates (executeSequential ags config cb ?e1 filtered))"
      by (auto simp: executeAuditStates_def Let_def)
    then show ?thesis
    proof cases
      case 1
      then show ?thesis by (simp add: initial_handled)
    next
      case 2
      with bound show ?thesis by simp
    next
      case 3
      have "last ?ss \<in> set ?ss" by (simp add: sequentialStates_nonempty)
      with bound have "totalDeclarations (last ?ss) = length filtered
                       \<and> handled (last ?ss) \<le> length filtered" by blast
      with finishStates_handled [OF 3] show ?thesis by (simp add: sequential_last)
    qed
  next
    case True
    show ?thesis
    proof (cases "chunkArray filtered (maxConcurrency (executionOptions config))")
      case None
      with assms(2) Inr True have "s = ?e0 \<or> s = ?e1"
        by (auto simp: executeAuditStates_def Let_def)
      then show ?thesis by (auto simp: initial_handled)
    next
      case (Some chunks)
      let ?ss = "parallelStates ags config cb ?e1 chunks"
      from chunkArray_bound [OF Some] have len: "length (concat chunks) \<le> length filtered" .
      have bound: "totalDeclarations t = length filtered \<and> handled t \<le> length filtered"
        if "t \<in> set ?ss" for t
        using parallel_states [OF that] e1 len by simp
      from assms(2) Inr True Some consider "s = ?e0" | "s \<in> set ?ss"
        | "s \<in> set (finishStates (parallelLoop ags config cb ?e1 chunks))"
        by (auto simp: executeAuditStates_def Let_def)
      then show ?thesis
      proof cases
        case 1
        then show ?thesis by (simp add: initial_handled)
      next
        case 2
        with bound show ?thesis by simp
      next
        case 3
        have "last ?ss \<in> set ?ss" by (simp add: parallelStates_nonempty)
        with bound have "totalDeclarations (last ?ss) = length filtered
                         \<and> handled (last ?ss) \<le> length filtered" by blast
        with finishStates_handled [OF 3] show ?thesis by (simp add: parallel_last)
      qed
    qed
  qed
qed

text \<open>A run that ends \<open>completed\<close> has counted every entry of the filtered list once,
  unless its only batch was empty.\<close>

lemma completed_counters:
  assumes "\<not> skipsAll config decls"
    and "executeAudit ags config decls cb = Some e" and "status e = Completed"
  shows "handled e = totalDeclarations e"
proof (cases "filterDeclarations decls config")
  case (Inl err)
  with assms(2,3) show ?thesis by (auto simp: executeAudit_def Let_def status_final)
next
  case (Inr filtered)
  let ?e1 = "initialExecution decls\<lparr>totalDeclarations := length filtered\<rparr>"
  have e1: "handled ?e1 = 0" "totalDeclarations ?e1 = length filtered"
    by (simp_all add: initial_handled)
  show ?thesis
  proof (cases "parallelExecution (executionOptions config)")
    case False
    obtain e2 r where loop: "executeSequential ags config cb ?e1 filtered = (e2, r)"
      by (cases "executeSequential ags config cb ?e1 filtered")
    with assms(2,3) Inr False have r: "r = None" and e: "e = completeExecution e2"
      by (auto simp: executeAudit_def Let_def status_final split: option.splits)
    from sequential_completed [OF loop [unfolded r]] e e1 show ?thesis
      by (simp add: handled_final)
  next
    case True
    from assms(2) Inr True obtain chunks where
      chunks: "chunkArray filtered (maxConcurrency (executionOptions config)) = Some chunks"
      by (auto simp: executeAudit_def executeParallel_def Let_def split: option.splits)
    obtain e2 r where loop: "parallelLoop ags config cb ?e1 chunks = (e2, r)"
      by (cases "parallelLoop ags config cb ?e1 chunks")
    with assms(2,3) Inr True chunks have r: "r = None" and e: "e = completeExecution e2"
      by (auto simp: executeAudit_def executeParallel_def Let_def status_final
          split: option.splits)
    have "concat chunks = filtered"
    proof (cases "toNum (maxConcurrency (executionOptions config)) = NaN")
      case False
      with chunkArray_concat [OF chunks] show ?thesis by simp
    next
      case nan: True
      with assms(1) Inr True have "filtered = []" by (simp add: skipsAll_def)
      with chunks show ?thesis by (simp add: chunkArray_empty)
    qed
    with parallel_completed [OF loop [unfolded r]] e e1 show ?thesis
      by (simp add: handled_final)
  qed
qed

text \<open>The two exceptions are real: a run that counts an entry twice ends above the
  total, and a run whose only batch is empty ends \<open>completed\<close> having counted nothing.\<close>

lemma sequential_counts_twice:
  assumes "\<not> someAgentEnabled config" and "None \<notin> set ys"
  shows "\<exists>e'. executeSequential ags config cb e (ys @ [None]) = (e', Some TypeError)
            \<and> handled e' = handled e + length ys + 2
            \<and> totalDeclarations e' = totalDeclarations e"
  using assms(2)
proof (induction ys arbitrary: e)
  case Nil
  then show ?case
    by (simp add: sequentialStep_null_no_agents [OF assms(1)] handled_countFailure
          handled_pushResults)
next
  case (Cons y ys)
  then obtain d where y: "y = Some d" by (cases y) auto
  from sequentialStep_object [of ags config cb e d] obtain e1 where
    e1: "sequentialStep ags config cb e (Some d) = (e1, None)" "handled e1 = handled e + 1"
      "totalDeclarations e1 = totalDeclarations e"
    by blast
  from Cons.prems have "None \<notin> set ys" by simp
  from Cons.IH [OF this, of e1] obtain e' where
    "executeSequential ags config cb e1 (ys @ [None]) = (e', Some TypeError)"
    "handled e' = handled e1 + length ys + 2" "totalDeclarations e' = totalDeclarations e1"
    by blast
  with y e1 show ?case by simp
qed

lemma overCounts_exceeds:
  assumes "overCounts config decls"
  shows "\<exists>e. executeAudit ags config decls cb = Some e \<and> status e = Failed
             \<and> handled e = totalDeclarations e + 1"
proof -
  from assms obtain filtered where
    f: "filterDeclarations decls config = Inr filtered" "filtered \<noteq> []" "last filtered = None"
      "None \<notin> set (butlast filtered)"
    and na: "\<not> someAgentEnabled config" and seq: "\<not> parallelExecution (executionOptions config)"
    by (auto simp: overCounts_def split: sum.splits)
  let ?e1 = "initialExecution decls\<lparr>totalDeclarations := length filtered\<rparr>"
  from f have split: "butlast filtered @ [None] = filtered"
    using append_butlast_last_id [of filtered] by simp
  from sequential_counts_twice [OF na f(4), of ags cb ?e1] obtain e' where
    e': "executeSequential ags config cb ?e1 (butlast filtered @ [None]) = (e', Some TypeError)"
      "handled e' = handled ?e1 + length (butlast filtered) + 2"
      "totalDeclarations e' = totalDeclarations ?e1"
    by blast
  from f(2) have "length (butlast filtered) + 1 = length filtered" by (cases filtered) simp_all
  with e'(2,3) have "handled e' = totalDeclarations e' + 1" by (simp add: initial_handled)
  moreover from e'(1) f(1) seq have "executeAudit ags config decls cb = Some (failExecution e')"
    by (simp add: executeAudit_def Let_def split)
  ultimately show ?thesis by (simp add: handled_final status_final)
qed

lemma skipsAll_completes:
  assumes "skipsAll config decls"
  shows "\<exists>e. executeAudit ags config decls cb = Some e \<and> status e = Completed
             \<and> handled e = 0 \<and> 0 < totalDeclarations e"
proof -
  from assms obtain filtered where
    f: "filterDeclarations decls config = Inr filtered" "filtered \<noteq> []"
    and par: "parallelExecution (executionOptions config)"
    and nan: "toNum (maxConcurrency (executionOptions config)) = NaN"
    by (auto simp: skipsAll_def split: sum.splits)
  let ?e1 = "initialExecution decls\<lparr>totalDeclarations := length filtered\<rparr>"
  from chunkArray_NaN [OF nan, of filtered] f(2)
  have "chunkArray filtered (maxConcurrency (executionOptions config)) = Some [[]]" by simp
  moreover have "parallelLoop ags config cb ?e1 [[]] = (?e1, None)"
    by (simp add: chunkStep_def)
  ultimately have "executeAudit ags config decls cb = Some (completeExecution ?e1)"
    using f(1) par by (simp add: executeAudit_def executeParallel_def Let_def)
  with f(2) show ?thesis by (simp add: handled_final status_final initial_handled)
qed

text \<open>
  Claim C7, as stated, at concrete inputs.

  \<^item> With the scope \<open>hs-codes\<close> the filter reads \<open>decl.hsCode.startsWith\<close>; on a
  declaration without HS code it raises, \<open>executeAudit\<close> catches the exception and the
  execution ends \<open>failed\<close> with the counters as they were: 0 processed and 0 failed of
  1.

  \<^item> In parallel mode with no \<open>maxConcurrency\<close> in the execution options, \<open>chunkArray\<close>
  returns one empty chunk and the execution ends \<open>completed\<close> with 0 processed and 0
  failed of 1.

  \<^item> In sequential mode with no agent enabled, the entry \<open>null\<close> is counted as
  processed; building the argument of \<open>updateProgress\<close> then raises on
  \<open>declaration.id\<close>, the \<open>catch\<close> counts the entry as failed and raises in turn on the
  same read. The execution ends \<open>failed\<close> with 1 processed and 1 failed of 1, and the
  state before its end already exceeds the total.
\<close>

theorem C7_counters_counterexample:
  "map_option (\<lambda>e. (status e, processedDeclarations e, failedDeclarations e, totalDeclarations e))
     (executeAudit initializeAgents hsScopeConfig [Some bareDeclaration] None)
     = Some (Failed, 0, 0, 1)
   \<and> map_option (\<lambda>e. (status e, processedDeclarations e, failedDeclarations e, totalDeclarations e))
       (executeAudit initializeAgents missingConcurrencyConfig [Some chinaPetroleum] None)
     = Some (Completed, 0, 0, 1)
   \<and> map_option (\<lambda>e. (status e, processedDeclarations e, failedDeclarations e, totalDeclarations e))
       (executeAudit initializeAgents noAgentsConfig [None] None)
     = Some (Failed, 1, 1, 1)
   \<and> map (\<lambda>e. (status e, processedDeclarations e, failedDeclarations e, totalDeclarations e))
       (executeAuditStates initializeAgents noAgentsConfig [None] None)
     = [(Running, 0, 0, 1), (Running, 0, 0, 1), (Running, 1, 0, 1), (Running, 1, 1, 1),
        (Failed, 1, 1, 1)]"
  by code_simp

text \<open>
  Claim C7, amended. An execution that returns with the status \<open>completed\<close> has
  processed and failed counters that add up to the total, unless it ran in parallel mode
  with a chunk size that is missing or \<open>NaN\<close> on a non-empty filtered list. Nothing of the
  kind holds for an execution that ends \<open>failed\<close>: it keeps the counters it had when the
  exception was raised. At every point of every execution, returning or not, the two
  counters add up to at most the total, unless the execution ran in sequential mode with
  no agent enabled and the first \<open>null\<close> of the filtered list was its last entry. Both
  exceptions are exact (lemmas \<open>skipsAll_completes\<close> and \<open>overCounts_exceeds\<close>).
\<close>

theorem C7_counters:
  "(\<not> skipsAll config decls \<and> executeAudit ags config decls cb = Some e \<and> status e = Completed
      \<longrightarrow> processedDeclarations e + failedDeclarations e = totalDeclarations e)
   \<and> (\<not> overCounts config decls
      \<longrightarrow> list_all (\<lambda>s. processedDeclarations s + failedDeclarations s \<le> totalDeclarations s)
            (executeAuditStates ags config decls cb))"
proof (intro conjI impI)
  assume "\<not> skipsAll config decls \<and> executeAudit ags config decls cb = Some e
          \<and> status e = Completed"
  then show "processedDeclarations e + failedDeclarations e = totalDeclarations e"
    using completed_counters [of config decls ags cb e] by (simp add: handled_def)
next
  assume "\<not> overCounts config decls"
  then show "list_all (\<lambda>s. processedDeclarations s + failedDeclarations s \<le> totalDeclarations s)
            (executeAuditStates ags config decls cb)"
    using states_bounded [of config decls _ ags cb] by (simp add: list_all_iff handled_def)
qed

theorem C7_counters_witness:
  "\<not> skipsAll parallelConfig [Some chinaPetroleum, Some valueOnly, Some textileFromChina]
   \<and> \<not> overCounts parallelConfig [Some chinaPetroleum, Some valueOnly, Some textileFromChina]
   \<and> (\<exists>e. executeAudit initializeAgents parallelConfig
               [Some chinaPetroleum, Some valueOnly, Some textileFromChina] None = Some e
            \<and> status e = Completed \<and> processedDeclarations e = 2 \<and> failedDeclarations e = 1
            \<and> processedDeclarations e + failedDeclarations e = totalDeclarations e)
   \<and> list_all (\<lambda>s. processedDeclarations s + failedDeclarations s \<le> totalDeclarations s)
         (executeAuditStates initializeAgents parallelConfig
            [Some chinaPetroleum, Some valueOnly, Some textileFromChina] None)"
proof -
  let ?ds = "[Some chinaPetroleum, Some valueOnly, Some textileFromChina]"
  have h1: "\<not> skipsAll parallelConfig ?ds" by code_simp
  have h2: "\<not> overCounts parallelConfig ?ds" by code_simp
  have "map_option (\<lambda>e. (status e, processedDeclarations e, failedDeclarations e))
          (executeAudit initializeAgents parallelConfig ?ds None) = Some (Completed, 2, 1)"
    by code_simp
  then obtain e where e: "executeAudit initializeAgents parallelConfig ?ds None = Some e"
    "status e = Completed" "processedDeclarations e = 2" "failedDeclarations e = 1"
    by auto
  from C7_counters [of parallelConfig ?ds initializeAgents None e] h1 h2 e
  show ?thesis by blast
qed

end
